theory Spec2Isabelle
  imports Complex_Main
begin

section \<open>The KeeLoq code word decoder (pd.py)\<close>

text \<open>
  The decoder is a class whose attributes are mutated by its methods while it pulls edges
  from the host with \<open>self.wait\<close> and pushes annotations with \<open>self.put\<close>. The model
  is a record of the attributes, passed explicitly. Three fields stand for the host:
  \<open>samplenum\<close> (the sample number of the last matched edge), \<open>pending\<close> (the edges of
  the waveform not yet delivered, each a sample number and a flag that is \<open>True\<close> for a
  rising edge) and \<open>out\<close> (the annotations put so far, oldest first).

  Durations are Python floats and sample rates Python numbers; both are modelled as exact
  reals, sample numbers and counters as unbounded integers.
\<close>

subsection \<open>Data\<close>

text \<open>\<open>class Ann: TE, LOGICAL_BIT, CODE_WORD, ENCRYP_DATA, FIXED_DATA = range(5)\<close>\<close>

definition Ann_TE :: nat where "Ann_TE = 0"
definition Ann_LOGICAL_BIT :: nat where "Ann_LOGICAL_BIT = 1"
definition Ann_CODE_WORD :: nat where "Ann_CODE_WORD = 2"
definition Ann_ENCRYP_DATA :: nat where "Ann_ENCRYP_DATA = 3"
definition Ann_FIXED_DATA :: nat where "Ann_FIXED_DATA = 4"

text \<open>An annotation as handed to \<open>put\<close>: start sample, end sample, class, texts.\<close>

type_synonym annotation = "int \<times> int \<times> nat \<times> string list"

type_synonym edge = "int \<times> bool"

text \<open>
  The values \<open>trig_cond\<close> takes: \<open>""\<close> after \<open>reset\<close>, \<open>[{0: "r"}]\<close> and
  \<open>[{0: "e"}]\<close> in \<open>decode\<close>.
\<close>

datatype cond = Cond_Empty | Cond_Rising | Cond_Edge

datatype error = Exception string | ZeroDivisionError | TypeError | ValueError

record decoder =
  samplerate :: "real option"
  TEcnt :: int
  Block_Init :: int
  ssBlock :: int
  Header_Completed :: int
  n :: int
  prevN :: int
  Bitcnt :: int
  trig_cond :: cond
  BitString :: string
  KeyLoq :: "string \<rightharpoonup> string"
  samplenum :: int
  pending :: "edge list"
  out :: "annotation list"

text \<open>
  What a method call can do: return a value in a new state, never return because the
  host has no further edge to deliver (the state is the one the decoder is left in), or
  raise.
\<close>

datatype 'a outcome = Return 'a decoder | Ended decoder | Raised error decoder

text \<open>The constants \<open>reset\<close> assigns and no method changes.\<close>

definition TE_Timing :: "real list" where
  "TE_Timing = [280 / 10 ^ 6, 580 / 10 ^ 6, 700 / 10 ^ 6, 1000 / 10 ^ 6, 3 / 10 ^ 3, 6 / 10 ^ 3]"

definition PREAMBLE_TE_Count_Std :: int where "PREAMBLE_TE_Count_Std = 23"

definition PREAMBLE_TE_Count_Short :: int where "PREAMBLE_TE_Count_Short = 45"

definition PREAMBLE_TE_Timing_Short :: "real list" where
  "PREAMBLE_TE_Timing_Short = [TE_Timing ! 0 * (1 / 2), TE_Timing ! 1 * (1 / 2)]"

text \<open>
  The window tests. \<open>in_short_te\<close> and \<open>in_std_te\<close> are the locals of
  \<open>Decode_Preable\<close>; \<open>Decode_LogicalBit\<close> writes the second one out again for the
  half-bit of a logical 1, and \<open>in_bit0_te\<close> and \<open>in_header_te\<close> name the two
  comparisons the source writes inline.
\<close>

definition in_short_te :: "real \<Rightarrow> bool" where
  "in_short_te t = (t \<ge> PREAMBLE_TE_Timing_Short ! 0 \<and> t \<le> PREAMBLE_TE_Timing_Short ! 1)"

definition in_std_te :: "real \<Rightarrow> bool" where
  "in_std_te t = (t \<ge> TE_Timing ! 0 \<and> t \<le> TE_Timing ! 1)"

definition in_bit0_te :: "real \<Rightarrow> bool" where
  "in_bit0_te t = (t \<ge> TE_Timing ! 2 \<and> t \<le> TE_Timing ! 3)"

definition in_header_te :: "real \<Rightarrow> bool" where
  "in_header_te t = (t \<ge> TE_Timing ! 4 \<and> t \<le> TE_Timing ! 5)"

definition KeyLoq_init :: "string \<rightharpoonup> string" where
  "KeyLoq_init = [''Encrypted'' \<mapsto> '''', ''Serial-Number'' \<mapsto> '''', ''S3'' \<mapsto> '''',
     ''S0'' \<mapsto> '''', ''S1'' \<mapsto> '''', ''S2'' \<mapsto> '''', ''V-Low'' \<mapsto> '''', ''RPT'' \<mapsto> '''']"

definition reset :: "decoder \<Rightarrow> decoder" where
  "reset s = s\<lparr>samplerate := None, TEcnt := 0, Block_Init := 0, ssBlock := 0,
     Header_Completed := 0, n := 0, prevN := 0, Bitcnt := 0, trig_cond := Cond_Empty,
     BitString := '''', KeyLoq := KeyLoq_init\<rparr>"

text \<open>\<open>metadata\<close> with the key \<open>SRD_CONF_SAMPLERATE\<close>.\<close>

definition metadata :: "real \<Rightarrow> decoder \<Rightarrow> decoder" where
  "metadata v s = s\<lparr>samplerate := Some v\<rparr>"

text \<open>A decoder object as the host holds it before any input: \<open>__init__\<close> has run.\<close>

definition fresh :: decoder where
  "fresh = reset \<lparr>samplerate = None, TEcnt = 0, Block_Init = 0, ssBlock = 0,
     Header_Completed = 0, n = 0, prevN = 0, Bitcnt = 0, trig_cond = Cond_Empty,
     BitString = '''', KeyLoq = Map.empty, samplenum = 0, pending = [], out = []\<rparr>"

subsection \<open>The host: \<open>wait\<close> and \<open>put\<close>\<close>

text \<open>
  \<open>self.wait(self.trig_cond)\<close> skips to the next edge that matches the condition and
  sets \<open>samplenum\<close>; \<open>None\<close> when the input holds no such edge, in which case the call
  does not return. The decoder never waits on the condition \<open>""\<close>.
  \<open>self.put(ss, es, self.out_ann, data)\<close> appends to the one output that \<open>start\<close>
  registers, so \<open>out_ann\<close> is not a parameter of the model.
\<close>

definition wait :: "decoder \<Rightarrow> decoder option" where
  "wait s =
     (case trig_cond s of
        Cond_Empty \<Rightarrow> None
      | Cond_Rising \<Rightarrow>
          (case dropWhile (\<lambda>e. \<not> snd e) (pending s) of
             [] \<Rightarrow> None
           | e # es \<Rightarrow> Some (s\<lparr>samplenum := fst e, pending := es\<rparr>))
      | Cond_Edge \<Rightarrow>
          (case pending s of
             [] \<Rightarrow> None
           | e # es \<Rightarrow> Some (s\<lparr>samplenum := fst e, pending := es\<rparr>)))"

definition put :: "int \<Rightarrow> int \<Rightarrow> nat \<times> string list \<Rightarrow> decoder \<Rightarrow> decoder" where
  "put ss es d s = s\<lparr>out := out s @ [(ss, es, d)]\<rparr>"

subsection \<open>Python's \<open>str\<close>, \<open>int(_, 2)\<close> and \<open>format\<close>\<close>

fun digits10 :: "nat \<Rightarrow> string" where
  "digits10 k = (if k < 10 then [''0123456789'' ! k]
                 else digits10 (k div 10) @ [''0123456789'' ! (k mod 10)])"

declare digits10.simps [simp del]

definition str :: "int \<Rightarrow> string" where
  "str i = (if i < 0 then CHR ''-'' # digits10 (nat (- i)) else digits10 (nat i))"

text \<open>
  \<open>int(s, 2)\<close> on a string of binary digits; \<open>None\<close> is the \<open>ValueError\<close> Python
  raises on the empty string. The decoder only ever builds \<open>BitString\<close> from the
  characters 0 and 1, so the other spellings \<open>int\<close> accepts (a sign, a \<open>0b\<close> prefix,
  underscores, blanks) are not modelled: they are \<open>None\<close> here.
\<close>

definition is_bit :: "char \<Rightarrow> bool" where
  "is_bit c = (c = CHR ''0'' \<or> c = CHR ''1'')"

definition bin_value :: "string \<Rightarrow> nat" where
  "bin_value s = foldl (\<lambda>a c. 2 * a + (if c = CHR ''1'' then 1 else 0)) 0 s"

definition int2 :: "string \<Rightarrow> nat option" where
  "int2 s = (if s \<noteq> [] \<and> list_all is_bit s then Some (bin_value s) else None)"

fun hex_digits :: "nat \<Rightarrow> string" where
  "hex_digits k = (if k < 16 then [''0123456789ABCDEF'' ! k]
                   else hex_digits (k div 16) @ [''0123456789ABCDEF'' ! (k mod 16)])"

declare hex_digits.simps [simp del]

text \<open>\<open>"0x{0:0{1}X}".format(v, w)\<close> for \<open>v \<ge> 0\<close>.\<close>

definition format_0x :: "nat \<Rightarrow> nat \<Rightarrow> string" where
  "format_0x v w = ''0x'' @ replicate (w - length (hex_digits v)) CHR ''0'' @ hex_digits v"

subsection \<open>The methods\<close>

definition Start_Block :: "decoder \<Rightarrow> decoder" where
  "Start_Block s = (if Block_Init s = 0 then s\<lparr>Block_Init := 1, ssBlock := prevN s\<rparr> else s)"

definition Decode_Preable :: "real \<Rightarrow> decoder \<Rightarrow> decoder" where
  "Decode_Preable t s =
     (if in_short_te t \<or> in_std_te t then
        let s1 =
              (if in_short_te t \<and> TEcnt s < PREAMBLE_TE_Count_Short then
                 Start_Block (put (prevN s) (samplenum s) (Ann_TE, [str (TEcnt s)]) s)
               else if in_std_te t \<and> TEcnt s < PREAMBLE_TE_Count_Std then
                 Start_Block (put (prevN s) (samplenum s) (Ann_TE, [str (TEcnt s)]) s)
               else s)
        in
          if (in_short_te t \<and> TEcnt s1 = PREAMBLE_TE_Count_Short)
             \<or> (in_std_te t \<and> TEcnt s1 = PREAMBLE_TE_Count_Std) then
            put (prevN s1) (samplenum s1) (0, [str (TEcnt s1)])
              (put (ssBlock s1) (n s1) (Ann_CODE_WORD, [''Preamble'']) s1)
          else s1
      else if in_header_te t
              \<and> (TEcnt s = PREAMBLE_TE_Count_Std + 1
                   \<or> TEcnt s = PREAMBLE_TE_Count_Short + 1) then
        (put (prevN s) (n s) (Ann_CODE_WORD, [''Header'']) s)
          \<lparr>TEcnt := 0, Block_Init := 0, Header_Completed := 1\<rparr>
      else s\<lparr>TEcnt := 0, Block_Init := 0\<rparr>)"

definition Reset_DP_Cnts :: "decoder \<Rightarrow> decoder" where
  "Reset_DP_Cnts s = s\<lparr>Block_Init := 0, BitString := ''''\<rparr>"

definition Decode_LogicalBit :: "real \<Rightarrow> decoder \<Rightarrow> string outcome" where
  "Decode_LogicalBit t s =
     (if in_std_te t \<or> in_bit0_te t then
        let s1 = Start_Block s;
            LogicalBit = (if in_std_te t then ''1'' else ''0'')
        in
          if Bitcnt s1 = 65 then
            (let s2 = s1\<lparr>n := samplenum s1 + 8\<rparr>
             in Return LogicalBit
                  (put (prevN s2) (n s2) (Ann_LOGICAL_BIT, [''Bit '' @ LogicalBit]) s2))
          else
            (case wait s1 of
               None \<Rightarrow> Ended s1
             | Some s2 \<Rightarrow>
                 (let s3 = s2\<lparr>n := samplenum s2\<rparr>
                  in Return LogicalBit
                       (put (prevN s3) (n s3) (Ann_LOGICAL_BIT, [''Bit '' @ LogicalBit]) s3)))
      else
        Return ''0''
          ((Reset_DP_Cnts
              (put (prevN s) (n s) (Ann_LOGICAL_BIT, [''>>> Invalid Bit <<< '' @ '''']) s))
             \<lparr>Header_Completed := 0, Bitcnt := - 1\<rparr>))"

definition Bin2Hex :: "decoder \<Rightarrow> error + string" where
  "Bin2Hex s = (case int2 (BitString s) of
                  None \<Rightarrow> Inl ValueError
                | Some decimal_value \<Rightarrow> Inr (format_0x decimal_value 7))"

text \<open>
  The tail of the first two branches of \<open>Decode_DataPortion\<close>, which differ in the key,
  the block label and the annotation class only.
\<close>

definition close_field :: "string \<Rightarrow> string \<Rightarrow> nat \<Rightarrow> decoder \<Rightarrow> unit outcome" where
  "close_field label key cls s =
     (let s1 = put (ssBlock s) (n s) (Ann_CODE_WORD, [label]) s
      in case Bin2Hex s1 of
           Inl e \<Rightarrow> Raised e s1
         | Inr h \<Rightarrow>
             (let s2 = s1\<lparr>KeyLoq := (KeyLoq s1)(key \<mapsto> h)\<rparr>
              in Return () (Reset_DP_Cnts (put (ssBlock s2) (n s2) (cls, [h]) s2))))"

text \<open>
  In \<open>self.BitString = self.Decode_LogicalBit(t) + self.BitString\<close> Python evaluates the
  call first and reads \<open>self.BitString\<close> afterwards, in the state the call has left.
  Where the source stores a value under a key and reads the same key back for the
  annotation text, the model uses the stored value.
\<close>

definition Decode_DataPortion :: "real \<Rightarrow> decoder \<Rightarrow> unit outcome" where
  "Decode_DataPortion t s =
     (if Bitcnt s \<le> 31 then
        (case Decode_LogicalBit t s of
           Ended s' \<Rightarrow> Ended s'
         | Raised e s' \<Rightarrow> Raised e s'
         | Return b s1 \<Rightarrow>
             (let s2 = s1\<lparr>BitString := b @ BitString s1\<rparr>
              in if Bitcnt s2 = 31 then close_field ''Encrypted Portion'' ''Encrypted'' Ann_ENCRYP_DATA s2
                 else Return () s2))
      else if Bitcnt s \<ge> 32 \<and> Bitcnt s \<le> 59 then
        (case Decode_LogicalBit t s of
           Ended s' \<Rightarrow> Ended s'
         | Raised e s' \<Rightarrow> Raised e s'
         | Return b s1 \<Rightarrow>
             (let s2 = s1\<lparr>BitString := b @ BitString s1\<rparr>
              in if Bitcnt s2 = 59 then close_field ''Serial Number'' ''Serial-Number'' Ann_FIXED_DATA s2
                 else Return () s2))
      else if Bitcnt s \<ge> 60 \<and> Bitcnt s \<le> 63 then
        (case Decode_LogicalBit t s of
           Ended s' \<Rightarrow> Ended s'
         | Raised e s' \<Rightarrow> Raised e s'
         | Return LogicalBit s1 \<Rightarrow>
             if Bitcnt s1 = 60 then
               Return () (put (prevN s1) (n s1) (Ann_FIXED_DATA, [''S3 = '' @ LogicalBit])
                            (s1\<lparr>KeyLoq := (KeyLoq s1)(''S3'' \<mapsto> LogicalBit)\<rparr>))
             else if Bitcnt s1 = 61 then
               Return () (put (prevN s1) (n s1) (Ann_FIXED_DATA, [''S0 = '' @ LogicalBit])
                            (s1\<lparr>KeyLoq := (KeyLoq s1)(''S0'' \<mapsto> LogicalBit)\<rparr>))
             else if Bitcnt s1 = 62 then
               Return () (put (prevN s1) (n s1) (Ann_FIXED_DATA, [''S1 = '' @ LogicalBit])
                            (s1\<lparr>KeyLoq := (KeyLoq s1)(''S1'' \<mapsto> LogicalBit)\<rparr>))
             else if Bitcnt s1 = 63 then
               (let s2 = s1\<lparr>KeyLoq := (KeyLoq s1)(''S2'' \<mapsto> LogicalBit)\<rparr>;
                    s3 = put (ssBlock s2) (n s2) (Ann_CODE_WORD, [''Button Code'']) s2;
                    s4 = put (prevN s3) (n s3) (Ann_FIXED_DATA, [''S2 = '' @ LogicalBit]) s3
                in Return () (Reset_DP_Cnts s4))
             else Return () s1)
      else if Bitcnt s = 64 then
        (case Decode_LogicalBit t s of
           Ended s' \<Rightarrow> Ended s'
         | Raised e s' \<Rightarrow> Raised e s'
         | Return LogicalBit s1 \<Rightarrow>
             (let s2 = put (ssBlock s1) (n s1) (Ann_CODE_WORD, [''V-Low'']) s1;
                  v = (if LogicalBit = ''0'' then ''Battery High'' else ''Battery Low'');
                  s3 = s2\<lparr>KeyLoq := (KeyLoq s2)(''V-Low'' \<mapsto> v)\<rparr>;
                  s4 = put (prevN s3) (n s3) (Ann_FIXED_DATA, [v]) s3
              in Return () (Reset_DP_Cnts s4)))
      else if Bitcnt s = 65 then
        (case Decode_LogicalBit t s of
           Ended s' \<Rightarrow> Ended s'
         | Raised e s' \<Rightarrow> Raised e s'
         | Return LogicalBit s1 \<Rightarrow>
             (let s2 = put (ssBlock s1) (n s1) (Ann_CODE_WORD, [''RPT'']) s1;
                  v = (if LogicalBit = ''0'' then ''No'' else ''Yes'');
                  s3 = s2\<lparr>KeyLoq := (KeyLoq s2)(''RPT'' \<mapsto> v)\<rparr>;
                  s4 = put (prevN s3) (n s3) (Ann_FIXED_DATA, [v]) s3
              in Return () ((Reset_DP_Cnts s4)\<lparr>Header_Completed := 0, Bitcnt := - 1\<rparr>)))
      else Return () s)"

subsection \<open>The main loop\<close>

text \<open>One pass through the body of \<open>while True\<close> in \<open>decode\<close>.\<close>

definition loop_body :: "decoder \<Rightarrow> unit outcome" where
  "loop_body s =
     (case wait s of
        None \<Rightarrow> Ended s
      | Some s0 \<Rightarrow>
          (let s1 = s0\<lparr>n := samplenum s0\<rparr>
           in case samplerate s1 of
                None \<Rightarrow> Raised TypeError s1
              | Some r \<Rightarrow>
                  if r = 0 then Raised ZeroDivisionError s1
                  else
                    (let t = real_of_int (n s1 - prevN s1) / r
                     in if Header_Completed s1 = 0 then
                          (let s2 = Decode_Preable t (s1\<lparr>TEcnt := TEcnt s1 + 1\<rparr>)
                           in Return () (s2\<lparr>prevN := samplenum s2\<rparr>))
                        else
                          (case Decode_DataPortion t s1 of
                             Ended s' \<Rightarrow> Ended s'
                           | Raised e s' \<Rightarrow> Raised e s'
                           | Return u s2 \<Rightarrow>
                               (let s3 = s2\<lparr>Bitcnt := Bitcnt s2 + 1\<rparr>
                                in Return () (s3\<lparr>prevN := samplenum s3\<rparr>))))))"

text \<open>
  The loop. Every pass that returns has taken at least one edge from the host, so over a
  finite recording the loop is a total function; it ends when the host has no edge left.
\<close>

function decode_loop :: "decoder \<Rightarrow> unit outcome" where
  "decode_loop s =
     (case loop_body s of
        Return u s' \<Rightarrow> decode_loop s'
      | Ended s' \<Rightarrow> Ended s'
      | Raised e s' \<Rightarrow> Raised e s')"
  by pat_completeness auto
termination
proof (relation "measure (\<lambda>s. length (pending s))")
  show "wf (measure (\<lambda>s. length (pending s)))" by simp
next
  fix s :: decoder and u :: unit and s' :: decoder
  assume body: "loop_body s = Return u s'"
  have w: "length (pending b) < length (pending a)" if "wait a = Some b" for a b
  proof (cases "trig_cond a")
    case Cond_Rising
    have "length (dropWhile (\<lambda>e. \<not> snd e) (pending a)) \<le> length (pending a)"
      by (rule length_dropWhile_le)
    with that Cond_Rising show ?thesis
      by (auto simp: wait_def split: list.splits)
  qed (use that in \<open>auto simp: wait_def split: list.splits\<close>)
  have lb: "length (pending b) \<le> length (pending a)" if "Decode_LogicalBit t a = Return x b" for t a x b
    using that
    by (auto simp: Decode_LogicalBit_def Let_def put_def Start_Block_def Reset_DP_Cnts_def
        split: if_splits option.splits dest!: w)
  have cf: "pending b = pending a" if "close_field l k c a = Return x b" for l k c a x b
    using that
    by (auto simp: close_field_def Let_def put_def Reset_DP_Cnts_def split: sum.splits)
  have dp: "length (pending b) \<le> length (pending a)" if "Decode_DataPortion t a = Return x b" for t a x b
    using that unfolding Decode_DataPortion_def Let_def
    by (auto simp: put_def Reset_DP_Cnts_def split: if_splits outcome.splits dest!: lb cf)
  have pr: "pending (Decode_Preable t a) = pending a" for t a
    by (simp add: Decode_Preable_def Let_def put_def Start_Block_def)
  from body have "length (pending s') < length (pending s)"
    unfolding loop_body_def Let_def
    by (auto simp: pr split: option.splits if_splits outcome.splits dest!: w dp)
  then show "(s', s) \<in> measure (\<lambda>s. length (pending s))" by simp
qed

declare decode_loop.simps [simp del]

text \<open>The loop cut off after \<open>k\<close> passes, to look at the state at the head of the loop.\<close>

fun loop_n :: "nat \<Rightarrow> decoder \<Rightarrow> unit outcome" where
  "loop_n 0 s = Return () s"
| "loop_n (Suc k) s =
     (case loop_body s of
        Return u s' \<Rightarrow> loop_n k s'
      | Ended s' \<Rightarrow> Ended s'
      | Raised e s' \<Rightarrow> Raised e s')"

text \<open>\<open>decode\<close> up to the head of its loop, and \<open>decode\<close>.\<close>

definition decode_begin :: "decoder \<Rightarrow> unit outcome" where
  "decode_begin s =
     (if samplerate s = None then Raised (Exception ''Cannot decode without samplerate.'') s
      else
        (let s1 = s\<lparr>trig_cond := Cond_Rising\<rparr>
         in case wait s1 of
              None \<Rightarrow> Ended s1
            | Some s2 \<Rightarrow> Return () (s2\<lparr>prevN := samplenum s2, trig_cond := Cond_Edge\<rparr>)))"

definition decode :: "decoder \<Rightarrow> unit outcome" where
  "decode s =
     (case decode_begin s of
        Return u s0 \<Rightarrow> decode_loop s0
      | Ended s' \<Rightarrow> Ended s'
      | Raised e s' \<Rightarrow> Raised e s')"

section \<open>Describing inputs and results\<close>

text \<open>
  The definitions of this section are not in the source. They describe the recordings the
  properties below are about, and the fields a recording is expected to decode to.
\<close>

text \<open>
  The four timing windows in seconds, as the properties state them: a half-bit of a
  logical 1 or a standard preamble pulse (280 to 580 us), a half-bit of a logical 0
  (700 to 1000 us), the header gap (3 to 6 ms) and a short preamble pulse (140 to 290 us).
\<close>

definition te_bit1 :: "real \<Rightarrow> bool" where
  "te_bit1 t = (280 / 10 ^ 6 \<le> t \<and> t \<le> 580 / 10 ^ 6)"

definition te_bit0 :: "real \<Rightarrow> bool" where
  "te_bit0 t = (700 / 10 ^ 6 \<le> t \<and> t \<le> 1000 / 10 ^ 6)"

definition te_header :: "real \<Rightarrow> bool" where
  "te_header t = (3 / 10 ^ 3 \<le> t \<and> t \<le> 6 / 10 ^ 3)"

definition te_preamble_short :: "real \<Rightarrow> bool" where
  "te_preamble_short t = (140 / 10 ^ 6 \<le> t \<and> t \<le> 290 / 10 ^ 6)"

text \<open>The state an outcome carries.\<close>

fun state_of :: "'a outcome \<Rightarrow> decoder" where
  "state_of (Return x s) = s"
| "state_of (Ended s) = s"
| "state_of (Raised e s) = s"

text \<open>
  The duration \<open>decode\<close> computes for an edge \<open>e\<close> that follows an edge at sample
  \<open>p\<close>, at the sample rate \<open>r\<close>.
\<close>

definition dur :: "real \<Rightarrow> int \<Rightarrow> edge \<Rightarrow> real" where
  "dur r p e = real_of_int (fst e - p) / r"

text \<open>The sample of the last edge of a run of edges that starts after sample \<open>p\<close>.\<close>

fun end_of :: "int \<Rightarrow> edge list \<Rightarrow> int" where
  "end_of p [] = p"
| "end_of p (e # es) = end_of (fst e) es"

text \<open>A run of edges each of whose durations, measured from its predecessor, lies in \<open>W\<close>.\<close>

fun pulses :: "(real \<Rightarrow> bool) \<Rightarrow> real \<Rightarrow> int \<Rightarrow> edge list \<Rightarrow> bool" where
  "pulses W r p [] = True"
| "pulses W r p (e # es) = (W (dur r p e) \<and> pulses W r (fst e) es)"

text \<open>
  A transmitted bit as the character the decoder makes of it, and the window its first
  half-bit has to fall in.
\<close>

definition bitstr :: "bool \<Rightarrow> string" where
  "bitstr b = (if b then ''1'' else ''0'')"

definition half_bit :: "bool \<Rightarrow> real \<Rightarrow> bool" where
  "half_bit b t = (if b then te_bit1 t else te_bit0 t)"

text \<open>
  Edges that carry the bits \<open>bs\<close> from bit position \<open>k\<close> on, after an edge at sample
  \<open>p\<close>: each bit is the edge that ends its first half-bit, whose duration is checked,
  and the edge that ends its second half, which is not; bit 65 has the first edge only.
  The result is the sample of the last edge used and the edges that remain.
\<close>

fun data_edges :: "real \<Rightarrow> int \<Rightarrow> int \<Rightarrow> bool list \<Rightarrow> edge list \<Rightarrow> (int \<times> edge list) option" where
  "data_edges r k p [] es = Some (p, es)"
| "data_edges r k p (b # bs) [] = None"
| "data_edges r k p (b # bs) (e # es) =
     (if half_bit b (dur r p e) then
        if k = 65 then (if bs = [] then Some (fst e, es) else None)
        else (case es of [] \<Rightarrow> None | e2 # es' \<Rightarrow> data_edges r (k + 1) (fst e2) bs es')
      else None)"

text \<open>
  The assembly of a code word as a function of the bit position alone: what bit \<open>k\<close>
  with character \<open>b\<close> does to the accumulated string and to the fields. The loop is
  shown below to compute it on valid half-bits.
\<close>

definition hexstr :: "string \<Rightarrow> string" where
  "hexstr s = format_0x (bin_value s) 7"

fun assemble :: "int \<Rightarrow> string \<Rightarrow> string \<times> (string \<rightharpoonup> string) \<Rightarrow> string \<times> (string \<rightharpoonup> string)" where
  "assemble k b (acc, kl) =
     (if k < 31 then (b @ acc, kl)
      else if k = 31 then ('''', kl(''Encrypted'' \<mapsto> hexstr (b @ acc)))
      else if k < 59 then (b @ acc, kl)
      else if k = 59 then ('''', kl(''Serial-Number'' \<mapsto> hexstr (b @ acc)))
      else if k = 60 then (acc, kl(''S3'' \<mapsto> b))
      else if k = 61 then (acc, kl(''S0'' \<mapsto> b))
      else if k = 62 then (acc, kl(''S1'' \<mapsto> b))
      else if k = 63 then ('''', kl(''S2'' \<mapsto> b))
      else if k = 64 then
        ('''', kl(''V-Low'' \<mapsto> (if b = ''0'' then ''Battery High'' else ''Battery Low'')))
      else if k = 65 then ('''', kl(''RPT'' \<mapsto> (if b = ''0'' then ''No'' else ''Yes'')))
      else (acc, kl))"

declare assemble.simps [simp del]

fun assemble_bits :: "int \<Rightarrow> bool list \<Rightarrow> string \<times> (string \<rightharpoonup> string) \<Rightarrow> string \<times> (string \<rightharpoonup> string)" where
  "assemble_bits k [] st = st"
| "assemble_bits k (b # bs) st = assemble_bits (k + 1) bs (assemble k (bitstr b) st)"

text \<open>
  Recordings with nominal timing at 1 MHz: the edges that follow an edge at sample \<open>x\<close>
  of polarity \<open>r\<close> at the given distances, and the two distances of each PWM bit with a
  TE of 400 samples.
\<close>

fun edges_from :: "int \<Rightarrow> bool \<Rightarrow> int list \<Rightarrow> edge list" where
  "edges_from x r [] = []"
| "edges_from x r (d # ds) = (x + d, \<not> r) # edges_from (x + d) (\<not> r) ds"

fun pwm :: "bool list \<Rightarrow> int list" where
  "pwm [] = []"
| "pwm (b # bs) = (if b then [400, 800] else [800, 400]) @ pwm bs"

text \<open>
  The 66 bits of the end-to-end scenario: bits 0 to 31 alternate from 1, bits 32 to 59 are
  0, then S3 = 1, S0 = 0, S1 = 1, S2 = 0, the low-battery bit 1 and the repeat bit 0.
\<close>

definition scenario_bits :: "bool list" where
  "scenario_bits = concat (replicate 16 [True, False]) @ replicate 28 False
     @ [True, False, True, False, True, False]"

definition scenario_stream :: "edge list" where
  "scenario_stream =
     (0, True) # edges_from 0 True (replicate 23 400 @ [4000] @ butlast (pwm scenario_bits))"

text \<open>
  A transmission whose encrypted bits have the value 1 and whose other bits are 0, alone,
  and after a transmission that is cut short at bit position 10 by a half-bit of 2 ms.
\<close>

definition word1_bits :: "bool list" where
  "word1_bits = True # replicate 65 False"

definition word1_stream :: "edge list" where
  "word1_stream = (0, True) # edges_from 0 True (replicate 23 400 @ [4000] @ butlast (pwm word1_bits))"

definition stale_stream :: "edge list" where
  "stale_stream =
     (0, True) # edges_from 0 True (replicate 23 400 @ [4000] @ pwm (replicate 10 True)
        @ [2000, 20000] @ replicate 23 400 @ [4000] @ butlast (pwm word1_bits))"

text \<open>Reading hexadecimal digits back.\<close>

definition hexdigit_value :: "char \<Rightarrow> nat" where
  "hexdigit_value c = length (takeWhile (\<lambda>d. d \<noteq> c) ''0123456789ABCDEF'')"

definition hex_value :: "string \<Rightarrow> nat" where
  "hex_value h = foldl (\<lambda>a c. 16 * a + hexdigit_value c) 0 h"

section \<open>Proofs\<close>

subsection \<open>The timing windows\<close>

text \<open>The windows in microseconds and milliseconds, as the constants of \<open>reset\<close> give them.\<close>

lemma in_short_te_iff: "in_short_te t \<longleftrightarrow> 140 / 10 ^ 6 \<le> t \<and> t \<le> 290 / 10 ^ 6"
  by (simp add: in_short_te_def PREAMBLE_TE_Timing_Short_def TE_Timing_def)

lemma in_std_te_iff: "in_std_te t \<longleftrightarrow> 280 / 10 ^ 6 \<le> t \<and> t \<le> 580 / 10 ^ 6"
  by (simp add: in_std_te_def TE_Timing_def)

lemma in_bit0_te_iff: "in_bit0_te t \<longleftrightarrow> 700 / 10 ^ 6 \<le> t \<and> t \<le> 1000 / 10 ^ 6"
  by (simp add: in_bit0_te_def TE_Timing_def)

lemma in_header_te_iff: "in_header_te t \<longleftrightarrow> 3 / 10 ^ 3 \<le> t \<and> t \<le> 6 / 10 ^ 3"
  by (simp add: in_header_te_def TE_Timing_def)

lemmas window_iffs = in_short_te_iff in_std_te_iff in_bit0_te_iff in_header_te_iff

text \<open>The tests of the source are the four windows.\<close>

lemma te_windows [simp]:
  "te_preamble_short = in_short_te" "te_bit1 = in_std_te" "te_bit0 = in_bit0_te"
  "te_header = in_header_te"
  by (rule ext, simp add: window_iffs te_preamble_short_def te_bit1_def te_bit0_def te_header_def)+

lemma header_not_te: "in_header_te t \<Longrightarrow> \<not> in_short_te t \<and> \<not> in_std_te t"
  by (auto simp: window_iffs)

lemma bit0_not_std: "in_bit0_te t \<Longrightarrow> \<not> in_std_te t"
  by (auto simp: window_iffs)

text \<open>
  Claim C5, as amended. The window of a logical-1 half-bit is the standard preamble window
  by construction: both are \<open>in_std_te\<close>. The short preamble window [140, 290] us and
  the standard window [280, 580] us overlap, exactly on [280, 290] us. Every other pair
  of windows is disjoint.
\<close>

theorem windows_overlap:
  "in_short_te t = te_preamble_short t \<and> in_std_te t = te_bit1 t
   \<and> in_bit0_te t = te_bit0 t \<and> in_header_te t = te_header t
   \<and> (in_short_te t \<and> in_std_te t \<longleftrightarrow> 280 / 10 ^ 6 \<le> t \<and> t \<le> 290 / 10 ^ 6)
   \<and> \<not> (in_short_te t \<and> in_bit0_te t) \<and> \<not> (in_short_te t \<and> in_header_te t)
   \<and> \<not> (in_std_te t \<and> in_bit0_te t) \<and> \<not> (in_std_te t \<and> in_header_te t)
   \<and> \<not> (in_bit0_te t \<and> in_header_te t)"
  by (auto simp: window_iffs)

text \<open>A duration of 285 us lies in the short and in the standard window.\<close>

theorem windows_overlap_counterexample:
  "in_short_te (285 / 10 ^ 6) \<and> in_std_te (285 / 10 ^ 6)"
  by (simp add: window_iffs)

subsection \<open>Fields that the helpers leave alone\<close>

lemma replicate_numeral: "replicate (numeral k) x = x # replicate (pred_numeral k) x"
  by (simp add: numeral_eq_Suc)

lemma put_fields [simp]:
  "samplerate (put a b d s) = samplerate s" "TEcnt (put a b d s) = TEcnt s"
  "Block_Init (put a b d s) = Block_Init s" "ssBlock (put a b d s) = ssBlock s"
  "Header_Completed (put a b d s) = Header_Completed s" "n (put a b d s) = n s"
  "prevN (put a b d s) = prevN s" "Bitcnt (put a b d s) = Bitcnt s"
  "trig_cond (put a b d s) = trig_cond s" "BitString (put a b d s) = BitString s"
  "KeyLoq (put a b d s) = KeyLoq s" "samplenum (put a b d s) = samplenum s"
  "pending (put a b d s) = pending s"
  "out (put a b d s) = out s @ [(a, b, d)]"
  by (simp_all add: put_def)

lemma Start_Block_fields [simp]:
  "samplerate (Start_Block s) = samplerate s" "TEcnt (Start_Block s) = TEcnt s"
  "Header_Completed (Start_Block s) = Header_Completed s" "n (Start_Block s) = n s"
  "prevN (Start_Block s) = prevN s" "Bitcnt (Start_Block s) = Bitcnt s"
  "trig_cond (Start_Block s) = trig_cond s" "BitString (Start_Block s) = BitString s"
  "KeyLoq (Start_Block s) = KeyLoq s" "samplenum (Start_Block s) = samplenum s"
  "pending (Start_Block s) = pending s"
  "out (Start_Block s) = out s"
  by (simp_all add: Start_Block_def)

lemma Reset_DP_Cnts_fields [simp]:
  "samplerate (Reset_DP_Cnts s) = samplerate s" "TEcnt (Reset_DP_Cnts s) = TEcnt s"
  "Block_Init (Reset_DP_Cnts s) = 0" "ssBlock (Reset_DP_Cnts s) = ssBlock s"
  "Header_Completed (Reset_DP_Cnts s) = Header_Completed s" "n (Reset_DP_Cnts s) = n s"
  "prevN (Reset_DP_Cnts s) = prevN s" "Bitcnt (Reset_DP_Cnts s) = Bitcnt s"
  "trig_cond (Reset_DP_Cnts s) = trig_cond s" "BitString (Reset_DP_Cnts s) = ''''"
  "KeyLoq (Reset_DP_Cnts s) = KeyLoq s" "samplenum (Reset_DP_Cnts s) = samplenum s"
  "pending (Reset_DP_Cnts s) = pending s"
  "out (Reset_DP_Cnts s) = out s"
  by (simp_all add: Reset_DP_Cnts_def)

lemma reset_fields [simp]:
  "samplerate (reset s) = None" "TEcnt (reset s) = 0" "Header_Completed (reset s) = 0"
  "Bitcnt (reset s) = 0" "BitString (reset s) = ''''" "KeyLoq (reset s) = KeyLoq_init"
  "pending (reset s) = pending s" "out (reset s) = out s" "Block_Init (reset s) = 0"
  by (simp_all add: reset_def)

lemma metadata_fields [simp]:
  "samplerate (metadata r s) = Some r" "TEcnt (metadata r s) = TEcnt s"
  "Header_Completed (metadata r s) = Header_Completed s" "Bitcnt (metadata r s) = Bitcnt s"
  "BitString (metadata r s) = BitString s" "KeyLoq (metadata r s) = KeyLoq s"
  "pending (metadata r s) = pending s" "out (metadata r s) = out s"
  "Block_Init (metadata r s) = Block_Init s"
  by (simp_all add: metadata_def)

subsection \<open>\<open>Decode_Preable\<close>\<close>

lemma pending_Decode_Preable [simp]: "pending (Decode_Preable t s) = pending s"
  by (simp add: Decode_Preable_def Let_def)

lemma Bitcnt_Decode_Preable [simp]: "Bitcnt (Decode_Preable t s) = Bitcnt s"
  by (simp add: Decode_Preable_def Let_def)

lemma Decode_Preable_te:
  assumes "in_short_te t \<or> in_std_te t"
  shows "TEcnt (Decode_Preable t s) = TEcnt s"
    and "Header_Completed (Decode_Preable t s) = Header_Completed s"
    and "samplerate (Decode_Preable t s) = samplerate s"
    and "trig_cond (Decode_Preable t s) = trig_cond s"
    and "Bitcnt (Decode_Preable t s) = Bitcnt s"
    and "BitString (Decode_Preable t s) = BitString s"
    and "KeyLoq (Decode_Preable t s) = KeyLoq s"
    and "samplenum (Decode_Preable t s) = samplenum s"
  using assms by (simp_all add: Decode_Preable_def Let_def)

lemma Decode_Preable_header:
  assumes "in_header_te t" and "TEcnt s = 24 \<or> TEcnt s = 46"
  shows "Decode_Preable t s =
           (put (prevN s) (n s) (Ann_CODE_WORD, [''Header'']) s)
             \<lparr>TEcnt := 0, Block_Init := 0, Header_Completed := 1\<rparr>"
  using assms header_not_te [of t]
  by (auto simp: Decode_Preable_def PREAMBLE_TE_Count_Std_def PREAMBLE_TE_Count_Short_def)

lemma Decode_Preable_other:
  assumes "\<not> in_short_te t" and "\<not> in_std_te t"
    and "\<not> (in_header_te t \<and> (TEcnt s = 24 \<or> TEcnt s = 46))"
  shows "Decode_Preable t s = s\<lparr>TEcnt := 0, Block_Init := 0\<rparr>"
  using assms
  by (auto simp: Decode_Preable_def PREAMBLE_TE_Count_Std_def PREAMBLE_TE_Count_Short_def)

text \<open>
  Claim C8. Whatever the value of \<open>TEcnt\<close>, a duration outside [140, 290] us, outside
  [280, 580] us and outside [3, 6] ms makes \<open>Decode_Preable\<close> reset \<open>TEcnt\<close> to 0 and
  clear \<open>Block_Init\<close>; the header is not completed by it.
\<close>

theorem no_window_resets:
  assumes "\<not> te_preamble_short t" and "\<not> te_bit1 t" and "\<not> te_header t"
  shows "TEcnt (Decode_Preable t s) = 0 \<and> Block_Init (Decode_Preable t s) = 0
         \<and> Header_Completed (Decode_Preable t s) = Header_Completed s"
proof -
  from assms have "\<not> in_short_te t" "\<not> in_std_te t" "\<not> in_header_te t"
    by simp_all
  then show ?thesis by (simp add: Decode_Preable_other)
qed

theorem no_window_resets_witness:
  "TEcnt (Decode_Preable (2 / 10 ^ 3) (fresh\<lparr>TEcnt := 24, Block_Init := 1\<rparr>)) = 0
   \<and> Block_Init (Decode_Preable (2 / 10 ^ 3) (fresh\<lparr>TEcnt := 24, Block_Init := 1\<rparr>)) = 0"
  using no_window_resets [of "2 / 10 ^ 3" "fresh\<lparr>TEcnt := 24, Block_Init := 1\<rparr>"]
  by (simp add: window_iffs)

subsection \<open>Running the loop\<close>

lemma loop_n_add:
  "loop_n (a + b) s =
     (case loop_n a s of Return u s' \<Rightarrow> loop_n b s' | Ended s' \<Rightarrow> Ended s' | Raised e s' \<Rightarrow> Raised e s')"
  by (induction a arbitrary: s) (auto split: outcome.splits)

lemma loop_n_Return_add:
  "loop_n a s = Return () s' \<Longrightarrow> loop_n b s' = Return () s'' \<Longrightarrow> loop_n (a + b) s = Return () s''"
  by (simp add: loop_n_add)

lemma loop_n_snoc:
  "loop_n k s = Return () s' \<Longrightarrow> loop_body s' = Return () s'' \<Longrightarrow> loop_n (Suc k) s = Return () s''"
  using loop_n_Return_add [of k s s' "Suc 0" s''] by simp

lemma loop_n_1: "loop_n (Suc 0) s = loop_body s"
  by (simp split: outcome.splits)

lemma decode_loop_step: "loop_body s = Return () s' \<Longrightarrow> decode_loop s = decode_loop s'"
  by (subst decode_loop.simps) simp

lemma decode_loop_loop_n: "loop_n k s = Return () s' \<Longrightarrow> decode_loop s = decode_loop s'"
proof (induction k arbitrary: s)
  case 0
  then show ?case by simp
next
  case (Suc k)
  then obtain s1 where b: "loop_body s = Return () s1" and r: "loop_n k s1 = Return () s'"
    by (auto split: outcome.splits)
  from b have "decode_loop s = decode_loop s1"
    by (subst decode_loop.simps) simp
  with Suc.IH [OF r] show ?case by simp
qed

lemma decode_loop_no_edge: "pending s = [] \<Longrightarrow> trig_cond s = Cond_Edge \<Longrightarrow> decode_loop s = Ended s"
  by (subst decode_loop.simps) (simp add: loop_body_def wait_def)

lemma decode_begin_rising:
  assumes "samplerate s \<noteq> None" and "pending s = (x, True) # es"
  shows "decode_begin s = Return () (s\<lparr>trig_cond := Cond_Edge, samplenum := x, pending := es, prevN := x\<rparr>)"
  using assms by (simp add: decode_begin_def wait_def Let_def)

subsection \<open>Preamble and header\<close>

lemma loop_body_pre:
  assumes "samplerate s = Some r" and "r \<noteq> 0" and "Header_Completed s = 0"
    and "trig_cond s = Cond_Edge" and "pending s = e # es"
  shows "loop_body s =
           Return () ((Decode_Preable (dur r (prevN s) e)
                        (s\<lparr>samplenum := fst e, pending := es, n := fst e, TEcnt := TEcnt s + 1\<rparr>))
                      \<lparr>prevN := fst e\<rparr>)"
proof -
  have smp: "samplenum (Decode_Preable t (s\<lparr>samplenum := fst e, pending := es, n := fst e, TEcnt := TEcnt s + 1\<rparr>)) = fst e" for t
    by (simp add: Decode_Preable_def Let_def)
  show ?thesis
    using assms by (simp add: loop_body_def wait_def Let_def dur_def smp)
qed

lemma pulses_mono: "pulses W r p es \<Longrightarrow> (\<And>t. W t \<Longrightarrow> V t) \<Longrightarrow> pulses V r p es"
  by (induction es arbitrary: p) auto

lemma pulses_std: "pulses in_std_te r p es \<Longrightarrow> pulses (\<lambda>t. in_short_te t \<or> in_std_te t) r p es"
  by (erule pulses_mono) simp

lemma pulses_short: "pulses in_short_te r p es \<Longrightarrow> pulses (\<lambda>t. in_short_te t \<or> in_std_te t) r p es"
  by (erule pulses_mono) simp

text \<open>Pulses in either TE window are only counted.\<close>

lemma loop_body_te:
  assumes "samplerate s = Some r" and "r \<noteq> 0" and "Header_Completed s = 0"
    and "trig_cond s = Cond_Edge" and "pending s = e # es"
    and "in_short_te (dur r (prevN s) e) \<or> in_std_te (dur r (prevN s) e)"
  shows "\<exists>s'. loop_body s = Return () s' \<and> TEcnt s' = TEcnt s + 1 \<and> Header_Completed s' = 0
           \<and> samplerate s' = Some r \<and> trig_cond s' = Cond_Edge \<and> pending s' = es
           \<and> prevN s' = fst e \<and> Bitcnt s' = Bitcnt s \<and> BitString s' = BitString s
           \<and> KeyLoq s' = KeyLoq s"
  using assms by (simp add: loop_body_pre Decode_Preable_te)

lemma pre_run:
  assumes "samplerate s = Some r" and "r \<noteq> 0" and "Header_Completed s = 0"
    and "trig_cond s = Cond_Edge" and "pending s = P @ rest"
    and "pulses (\<lambda>t. in_short_te t \<or> in_std_te t) r (prevN s) P"
  shows "\<exists>s'. loop_n (length P) s = Return () s' \<and> TEcnt s' = TEcnt s + int (length P)
           \<and> Header_Completed s' = 0 \<and> samplerate s' = Some r \<and> trig_cond s' = Cond_Edge
           \<and> pending s' = rest \<and> prevN s' = end_of (prevN s) P \<and> Bitcnt s' = Bitcnt s
           \<and> BitString s' = BitString s \<and> KeyLoq s' = KeyLoq s"
  using assms
proof (induction P arbitrary: s)
  case Nil
  then show ?case by simp
next
  case (Cons e P)
  from Cons.prems have pe: "pending s = e # (P @ rest)"
    and w: "in_short_te (dur r (prevN s) e) \<or> in_std_te (dur r (prevN s) e)"
    and ps: "pulses (\<lambda>t. in_short_te t \<or> in_std_te t) r (fst e) P"
    by simp_all
  from loop_body_te [OF Cons.prems(1-4) pe w]
  obtain s1 where b: "loop_body s = Return () s1" and f: "TEcnt s1 = TEcnt s + 1"
    "Header_Completed s1 = 0" "samplerate s1 = Some r" "trig_cond s1 = Cond_Edge"
    "pending s1 = P @ rest" "prevN s1 = fst e" "Bitcnt s1 = Bitcnt s"
    "BitString s1 = BitString s" "KeyLoq s1 = KeyLoq s"
    by blast
  from ps f have ps1: "pulses (\<lambda>t. in_short_te t \<or> in_std_te t) r (prevN s1) P" by simp
  from Cons.IH [OF f(3) Cons.prems(2) f(2) f(4) f(5) ps1]
  obtain s' where "loop_n (length P) s1 = Return () s'" "TEcnt s' = TEcnt s1 + int (length P)"
    "Header_Completed s' = 0" "samplerate s' = Some r" "trig_cond s' = Cond_Edge"
    "pending s' = rest" "prevN s' = end_of (prevN s1) P" "Bitcnt s' = Bitcnt s1"
    "BitString s' = BitString s1" "KeyLoq s' = KeyLoq s1"
    by blast
  with b f show ?case by simp
qed

lemma loop_body_header:
  assumes "samplerate s = Some r" and "r \<noteq> 0" and "Header_Completed s = 0"
    and "trig_cond s = Cond_Edge" and "pending s = h # es"
    and "in_header_te (dur r (prevN s) h)" and "TEcnt s = 23 \<or> TEcnt s = 45"
  shows "\<exists>s'. loop_body s = Return () s' \<and> TEcnt s' = 0 \<and> Header_Completed s' = 1
           \<and> Block_Init s' = 0
           \<and> samplerate s' = Some r \<and> trig_cond s' = Cond_Edge \<and> pending s' = es
           \<and> prevN s' = fst h \<and> Bitcnt s' = Bitcnt s \<and> BitString s' = BitString s
           \<and> KeyLoq s' = KeyLoq s"
proof -
  let ?s1 = "s\<lparr>samplenum := fst h, pending := es, n := fst h, TEcnt := TEcnt s + 1\<rparr>"
  from assms(7) have "TEcnt ?s1 = 24 \<or> TEcnt ?s1 = 46" by auto
  from Decode_Preable_header [OF assms(6) this] assms(1-5) show ?thesis
    by (simp add: loop_body_pre)
qed

lemma loop_body_other:
  assumes "samplerate s = Some r" and "r \<noteq> 0" and "Header_Completed s = 0"
    and "trig_cond s = Cond_Edge" and "pending s = e # es"
    and "\<not> in_short_te (dur r (prevN s) e)" and "\<not> in_std_te (dur r (prevN s) e)"
    and "\<not> (in_header_te (dur r (prevN s) e) \<and> (TEcnt s = 23 \<or> TEcnt s = 45))"
  shows "loop_body s =
           Return () (s\<lparr>samplenum := fst e, pending := es, n := fst e, TEcnt := 0,
                        Block_Init := 0, prevN := fst e\<rparr>)"
proof -
  let ?s1 = "s\<lparr>samplenum := fst e, pending := es, n := fst e, TEcnt := TEcnt s + 1\<rparr>"
  from assms(8)
  have "\<not> (in_header_te (dur r (prevN s) e) \<and> (TEcnt ?s1 = 24 \<or> TEcnt ?s1 = 46))"
    by auto
  from Decode_Preable_other [OF assms(6,7) this] assms(1-5) show ?thesis
    by (simp add: loop_body_pre)
qed

text \<open>Preamble and header: the counter is back at 0 and the data portion begins.\<close>

lemma preamble_header:
  assumes "samplerate s = Some r" and "r \<noteq> 0" and "Header_Completed s = 0"
    and "trig_cond s = Cond_Edge" and "TEcnt s = 0" and "pending s = P @ h # rest"
    and "pulses (\<lambda>t. in_short_te t \<or> in_std_te t) r (prevN s) P"
    and "length P = 23 \<or> length P = 45"
    and "in_header_te (dur r (end_of (prevN s) P) h)"
  shows "\<exists>s'. loop_n (length P + 1) s = Return () s' \<and> TEcnt s' = 0 \<and> Header_Completed s' = 1
           \<and> samplerate s' = Some r \<and> trig_cond s' = Cond_Edge \<and> pending s' = rest
           \<and> prevN s' = fst h \<and> Bitcnt s' = Bitcnt s \<and> BitString s' = BitString s
           \<and> KeyLoq s' = KeyLoq s"
proof -
  from pre_run [OF assms(1-4) assms(6) assms(7)]
  obtain s1 where r1: "loop_n (length P) s = Return () s1" and f: "TEcnt s1 = TEcnt s + int (length P)"
    "Header_Completed s1 = 0" "samplerate s1 = Some r" "trig_cond s1 = Cond_Edge"
    "pending s1 = h # rest" "prevN s1 = end_of (prevN s) P" "Bitcnt s1 = Bitcnt s"
    "BitString s1 = BitString s" "KeyLoq s1 = KeyLoq s"
    by blast
  from f(1) assms(5,8) have c: "TEcnt s1 = 23 \<or> TEcnt s1 = 45" by auto
  from assms(9) f(6) have hd: "in_header_te (dur r (prevN s1) h)" by simp
  from loop_body_header [OF f(3) assms(2) f(2) f(4) f(5) hd c]
  obtain s' where b: "loop_body s1 = Return () s'" and g: "TEcnt s' = 0" "Header_Completed s' = 1"
    "samplerate s' = Some r" "trig_cond s' = Cond_Edge" "pending s' = rest"
    "prevN s' = fst h" "Bitcnt s' = Bitcnt s1" "BitString s' = BitString s1"
    "KeyLoq s' = KeyLoq s1"
    by blast
  from b have "loop_n 1 s1 = Return () s'" by simp
  from loop_n_Return_add [OF r1 this] g f show ?thesis by simp
qed

lemma decode_pulses:
  assumes "r \<noteq> 0" and "pending obj = (x, True) # P"
    and "pulses (\<lambda>t. in_short_te t \<or> in_std_te t) r x P"
  shows "\<exists>s'. decode (metadata r (reset obj)) = Ended s' \<and> TEcnt s' = int (length P)
           \<and> Header_Completed s' = 0"
proof -
  let ?s = "metadata r (reset obj)"
  let ?s1 = "?s\<lparr>trig_cond := Cond_Edge, samplenum := x, pending := P, prevN := x\<rparr>"
  have b: "decode_begin ?s = Return () ?s1"
    using assms(2) by (intro decode_begin_rising) simp_all
  have "\<exists>s'. loop_n (length P) ?s1 = Return () s' \<and> TEcnt s' = TEcnt ?s1 + int (length P)
           \<and> Header_Completed s' = 0 \<and> samplerate s' = Some r \<and> trig_cond s' = Cond_Edge
           \<and> pending s' = [] \<and> prevN s' = end_of (prevN ?s1) P \<and> Bitcnt s' = Bitcnt ?s1
           \<and> BitString s' = BitString ?s1 \<and> KeyLoq s' = KeyLoq ?s1"
    using assms by (intro pre_run) simp_all
  then obtain s' where l: "loop_n (length P) ?s1 = Return () s'"
    and f: "TEcnt s' = int (length P)" "Header_Completed s' = 0" "trig_cond s' = Cond_Edge"
      "pending s' = []"
    by auto
  from decode_loop_loop_n [OF l] decode_loop_no_edge [OF f(4) f(3)]
  have "decode_loop ?s1 = Ended s'" by simp
  with b f show ?thesis by (simp add: decode_def)
qed

text \<open>
  Claim C2. A decoder that has been reset and given a positive sample rate reads a rising
  edge, then 23 edges at standard TE distances (or 45 at short TE distances), then an
  edge after a gap of 3 to 6 ms. After the pulses the header is not completed and
  \<open>TEcnt\<close> is 23 (or 45), so that the gap edge sees 24 (or 46); the pass for the gap edge
  sets \<open>Header_Completed\<close> to 1 and \<open>TEcnt\<close> to 0.
\<close>

theorem preamble_header_transition:
  assumes "0 < r" and "pending obj = (x, True) # P @ h # rest"
    and "(length P = 23 \<and> pulses te_bit1 r x P)
         \<or> (length P = 45 \<and> pulses te_preamble_short r x P)"
    and "te_header (dur r (end_of x P) h)"
  shows "\<exists>s1 s2 s'. decode_begin (metadata r (reset obj)) = Return () s1
           \<and> loop_n (length P) s1 = Return () s2 \<and> Header_Completed s2 = 0
           \<and> TEcnt s2 = int (length P)
           \<and> loop_body s2 = Return () s' \<and> Header_Completed s' = 1 \<and> TEcnt s' = 0
           \<and> pending s' = rest"
proof -
  let ?s = "metadata r (reset obj)"
  let ?s1 = "?s\<lparr>trig_cond := Cond_Edge, samplenum := x, pending := P @ h # rest, prevN := x\<rparr>"
  have b: "decode_begin ?s = Return () ?s1"
    using assms(2) by (intro decode_begin_rising) simp_all
  from assms(3) have ps: "pulses (\<lambda>t. in_short_te t \<or> in_std_te t) r x P"
    by (auto intro: pulses_std pulses_short)
  from assms(3) have len: "length P = 23 \<or> length P = 45" by auto
  have "\<exists>s'. loop_n (length P) ?s1 = Return () s' \<and> TEcnt s' = TEcnt ?s1 + int (length P)
           \<and> Header_Completed s' = 0 \<and> samplerate s' = Some r \<and> trig_cond s' = Cond_Edge
           \<and> pending s' = h # rest \<and> prevN s' = end_of (prevN ?s1) P \<and> Bitcnt s' = Bitcnt ?s1
           \<and> BitString s' = BitString ?s1 \<and> KeyLoq s' = KeyLoq ?s1"
    using assms(1) ps by (intro pre_run) simp_all
  then obtain s2 where l: "loop_n (length P) ?s1 = Return () s2"
    and f: "TEcnt s2 = int (length P)" "Header_Completed s2 = 0" "samplerate s2 = Some r"
      "trig_cond s2 = Cond_Edge" "pending s2 = h # rest" "prevN s2 = end_of x P"
    by auto
  from assms(1) have r0: "r \<noteq> 0" by simp
  from assms(4) f(6) have hd: "in_header_te (dur r (prevN s2) h)" by simp
  from f(1) len have c: "TEcnt s2 = 23 \<or> TEcnt s2 = 45" by auto
  from loop_body_header [OF f(3) r0 f(2) f(4) f(5) hd c]
  obtain s' where "loop_body s2 = Return () s'" "TEcnt s' = 0" "Header_Completed s' = 1"
    "pending s' = rest"
    by blast
  with b l f show ?thesis by auto
qed

theorem preamble_header_transition_witness:
  "TEcnt (state_of (loop_n 23 (state_of (decode_begin (metadata 1000000 (reset
      (fresh\<lparr>pending := (0, True) # edges_from 0 True (replicate 23 400) @ [(13200, True)]\<rparr>))))))) = 23
   \<and> Header_Completed (state_of (loop_n 24 (state_of (decode_begin (metadata 1000000 (reset
      (fresh\<lparr>pending := (0, True) # edges_from 0 True (replicate 23 400) @ [(13200, True)]\<rparr>))))))) = 1
   \<and> TEcnt (state_of (loop_n 24 (state_of (decode_begin (metadata 1000000 (reset
      (fresh\<lparr>pending := (0, True) # edges_from 0 True (replicate 23 400) @ [(13200, True)]\<rparr>))))))) = 0
   \<and> TEcnt (state_of (loop_n 45 (state_of (decode_begin (metadata 1000000 (reset
      (fresh\<lparr>pending := (0, True) # edges_from 0 True (replicate 45 200) @ [(13000, True)]\<rparr>))))))) = 45
   \<and> Header_Completed (state_of (loop_n 46 (state_of (decode_begin (metadata 1000000 (reset
      (fresh\<lparr>pending := (0, True) # edges_from 0 True (replicate 45 200) @ [(13000, True)]\<rparr>))))))) = 1
   \<and> TEcnt (state_of (loop_n 46 (state_of (decode_begin (metadata 1000000 (reset
      (fresh\<lparr>pending := (0, True) # edges_from 0 True (replicate 45 200) @ [(13000, True)]\<rparr>))))))) = 0"
proof -
  let ?a = "metadata 1000000 (reset
      (fresh\<lparr>pending := (0, True) # edges_from 0 True (replicate 23 400) @ [(13200, True)]\<rparr>))"
  let ?b = "metadata 1000000 (reset
      (fresh\<lparr>pending := (0, True) # edges_from 0 True (replicate 45 200) @ [(13000, True)]\<rparr>))"
  have l1: "length (edges_from 0 True (replicate 23 400)) = 23"
    by (simp add: replicate_numeral)
  have l2: "length (edges_from 0 True (replicate 45 200)) = 45"
    by (simp add: replicate_numeral)
  have "\<exists>s1 s2 s'. decode_begin ?a = Return () s1
           \<and> loop_n (length (edges_from 0 True (replicate 23 400))) s1 = Return () s2
           \<and> Header_Completed s2 = 0
           \<and> TEcnt s2 = int (length (edges_from 0 True (replicate 23 400)))
           \<and> loop_body s2 = Return () s' \<and> Header_Completed s' = 1 \<and> TEcnt s' = 0
           \<and> pending s' = []"
    by (rule preamble_header_transition [where x = 0 and h = "(13200, True)"])
      (simp_all add: replicate_numeral dur_def window_iffs)
  then obtain s1 s2 s' where a: "decode_begin ?a = Return () s1" "loop_n 23 s1 = Return () s2"
    "TEcnt s2 = 23" "loop_body s2 = Return () s'" "Header_Completed s' = 1" "TEcnt s' = 0"
    unfolding l1 by auto
  from loop_n_snoc [OF a(2,4)] have a24: "loop_n 24 s1 = Return () s'" by simp
  have "\<exists>s1 s2 s'. decode_begin ?b = Return () s1
           \<and> loop_n (length (edges_from 0 True (replicate 45 200))) s1 = Return () s2
           \<and> Header_Completed s2 = 0
           \<and> TEcnt s2 = int (length (edges_from 0 True (replicate 45 200)))
           \<and> loop_body s2 = Return () s' \<and> Header_Completed s' = 1 \<and> TEcnt s' = 0
           \<and> pending s' = []"
    by (rule preamble_header_transition [where x = 0 and h = "(13000, True)"])
      (simp_all add: replicate_numeral dur_def window_iffs)
  then obtain t1 t2 t' where b: "decode_begin ?b = Return () t1" "loop_n 45 t1 = Return () t2"
    "TEcnt t2 = 45" "loop_body t2 = Return () t'" "Header_Completed t' = 1" "TEcnt t' = 0"
    unfolding l2 by auto
  from loop_n_snoc [OF b(2,4)] have b46: "loop_n 46 t1 = Return () t'" by simp
  from a a24 b b46 show ?thesis by simp
qed

text \<open>
  Claim C4, as amended. \<open>Decode_Preable\<close> is entered with \<open>TEcnt\<close> one above a preamble
  threshold and a duration outside the header window. If the duration is outside both TE
  windows as well, \<open>TEcnt\<close> is reset to 0 and \<open>Block_Init\<close> is cleared. If it lies in a
  TE window nothing is reset: \<open>TEcnt\<close> keeps its value and a block that has been started
  stays started. The header is not completed in either case.
\<close>

theorem awaiting_header_edge:
  assumes "TEcnt s = PREAMBLE_TE_Count_Std + 1 \<or> TEcnt s = PREAMBLE_TE_Count_Short + 1"
    and "\<not> te_header t"
  shows "Header_Completed (Decode_Preable t s) = Header_Completed s
         \<and> (if te_preamble_short t \<or> te_bit1 t
             then TEcnt (Decode_Preable t s) = TEcnt s
                  \<and> (Block_Init s \<noteq> 0 \<longrightarrow> Block_Init (Decode_Preable t s) = Block_Init s)
             else TEcnt (Decode_Preable t s) = 0 \<and> Block_Init (Decode_Preable t s) = 0)"
proof (cases "in_short_te t \<or> in_std_te t")
  case True
  then show ?thesis
    by (simp add: Decode_Preable_te) (simp add: Decode_Preable_def Let_def Start_Block_def put_def)
next
  case False
  with assms(2) show ?thesis by (simp add: Decode_Preable_other)
qed

theorem awaiting_header_edge_witness:
  "TEcnt (Decode_Preable (400 / 10 ^ 6) (fresh\<lparr>TEcnt := 24, Block_Init := 1\<rparr>)) = 24
   \<and> Block_Init (Decode_Preable (400 / 10 ^ 6) (fresh\<lparr>TEcnt := 24, Block_Init := 1\<rparr>)) = 1
   \<and> TEcnt (Decode_Preable (2 / 10 ^ 3) (fresh\<lparr>TEcnt := 46, Block_Init := 1\<rparr>)) = 0
   \<and> Block_Init (Decode_Preable (2 / 10 ^ 3) (fresh\<lparr>TEcnt := 46, Block_Init := 1\<rparr>)) = 0"
  using awaiting_header_edge [of "fresh\<lparr>TEcnt := 24, Block_Init := 1\<rparr>" "400 / 10 ^ 6"]
    awaiting_header_edge [of "fresh\<lparr>TEcnt := 46, Block_Init := 1\<rparr>" "2 / 10 ^ 3"]
  by (simp add: window_iffs PREAMBLE_TE_Count_Std_def PREAMBLE_TE_Count_Short_def)

text \<open>
  After 23 standard pulses a 24th pulse of 400 us arrives while the header is awaited:
  the counter is left at 24.
\<close>

theorem awaiting_header_counterexample:
  "TEcnt (state_of (decode (metadata 1000000
      (reset (fresh\<lparr>pending := (0, True) # edges_from 0 True (replicate 24 400)\<rparr>))))) = 24"
proof -
  have "\<exists>s'. decode (metadata 1000000
      (reset (fresh\<lparr>pending := (0, True) # edges_from 0 True (replicate 24 400)\<rparr>))) = Ended s'
      \<and> TEcnt s' = int (length (edges_from 0 True (replicate 24 400)))
      \<and> Header_Completed s' = 0"
    by (rule decode_pulses [where x = 0]) (simp_all add: replicate_numeral dur_def window_iffs)
  then show ?thesis by (auto simp: replicate_numeral)
qed

subsection \<open>Valid half-bits in the data portion\<close>

lemma is_bit_bitstr [simp]: "list_all is_bit (bitstr b)" "bitstr b \<noteq> []"
  by (simp_all add: bitstr_def is_bit_def)

lemma Decode_LogicalBit_next:
  assumes "half_bit b t" and "trig_cond s = Cond_Edge" and "Bitcnt s \<noteq> 65"
    and "pending s = e # es"
  shows "Decode_LogicalBit t s =
           Return (bitstr b)
             (put (prevN s) (fst e) (Ann_LOGICAL_BIT, [''Bit '' @ bitstr b])
                ((Start_Block s)\<lparr>samplenum := fst e, pending := es, n := fst e\<rparr>))"
  using assms bit0_not_std [of t]
  by (auto simp: Decode_LogicalBit_def half_bit_def bitstr_def wait_def Let_def split: if_splits)

lemma Decode_LogicalBit_last:
  assumes "half_bit b t" and "Bitcnt s = 65"
  shows "Decode_LogicalBit t s =
           Return (bitstr b)
             (put (prevN s) (samplenum s + 8) (Ann_LOGICAL_BIT, [''Bit '' @ bitstr b])
                ((Start_Block s)\<lparr>n := samplenum s + 8\<rparr>))"
  using assms bit0_not_std [of t]
  by (auto simp: Decode_LogicalBit_def half_bit_def bitstr_def Let_def split: if_splits)

lemma Decode_LogicalBit_invalid:
  assumes "\<not> in_std_te t" and "\<not> in_bit0_te t"
  shows "Decode_LogicalBit t s =
           Return ''0''
             ((Reset_DP_Cnts
                 (put (prevN s) (n s) (Ann_LOGICAL_BIT, [''>>> Invalid Bit <<< '']) s))
                \<lparr>Header_Completed := 0, Bitcnt := - 1\<rparr>)"
  using assms by (simp add: Decode_LogicalBit_def)

lemma close_field_ok:
  assumes "BitString s \<noteq> []" and "list_all is_bit (BitString s)"
  shows "close_field label key cls s =
           Return () (Reset_DP_Cnts
             (put (ssBlock s) (n s) (cls, [hexstr (BitString s)])
               ((put (ssBlock s) (n s) (Ann_CODE_WORD, [label]) s)
                  \<lparr>KeyLoq := (KeyLoq s)(key \<mapsto> hexstr (BitString s))\<rparr>)))"
  using assms by (simp add: close_field_def Bin2Hex_def int2_def hexstr_def Let_def)

text \<open>A valid half-bit: what \<open>Decode_DataPortion\<close> leaves behind.\<close>

lemma Decode_DataPortion_valid:
  assumes hb: "half_bit b t" and tc: "trig_cond s = Cond_Edge"
    and k: "0 \<le> Bitcnt s" "Bitcnt s \<le> 65"
    and p: "Bitcnt s \<noteq> 65 \<longrightarrow> pending s = e # es"
    and ok: "list_all is_bit (BitString s)"
  shows "\<exists>s'. Decode_DataPortion t s = Return () s'
           \<and> (BitString s', KeyLoq s') = assemble (Bitcnt s) (bitstr b) (BitString s, KeyLoq s)
           \<and> samplerate s' = samplerate s \<and> trig_cond s' = trig_cond s \<and> TEcnt s' = TEcnt s
           \<and> prevN s' = prevN s
           \<and> (if Bitcnt s = 65
               then Bitcnt s' = - 1 \<and> Header_Completed s' = 0 \<and> pending s' = pending s
                    \<and> samplenum s' = samplenum s
               else Bitcnt s' = Bitcnt s \<and> Header_Completed s' = Header_Completed s
                    \<and> pending s' = es \<and> samplenum s' = fst e)"
proof (cases "Bitcnt s = 65")
  case True
  with hb show ?thesis
    by (simp add: Decode_DataPortion_def Decode_LogicalBit_last assemble.simps Let_def)
next
  case False
  with p have pe: "pending s = e # es" by simp
  note lb = Decode_LogicalBit_next [OF hb tc False pe]
  consider "Bitcnt s < 31" | "Bitcnt s = 31" | "32 \<le> Bitcnt s" "Bitcnt s < 59" | "Bitcnt s = 59"
    | "Bitcnt s = 60" | "Bitcnt s = 61" | "Bitcnt s = 62" | "Bitcnt s = 63" | "Bitcnt s = 64"
    using k False by linarith
  then show ?thesis
  proof cases
    case 1
    then show ?thesis by (simp add: Decode_DataPortion_def lb assemble.simps Let_def)
  next
    case 2
    then show ?thesis using ok
      by (simp add: Decode_DataPortion_def lb assemble.simps Let_def close_field_ok)
  next
    case 3
    then show ?thesis by (simp add: Decode_DataPortion_def lb assemble.simps Let_def)
  next
    case 4
    then show ?thesis using ok
      by (simp add: Decode_DataPortion_def lb assemble.simps Let_def close_field_ok)
  next
    case 5
    then show ?thesis by (simp add: Decode_DataPortion_def lb assemble.simps Let_def)
  next
    case 6
    then show ?thesis by (simp add: Decode_DataPortion_def lb assemble.simps Let_def)
  next
    case 7
    then show ?thesis by (simp add: Decode_DataPortion_def lb assemble.simps Let_def)
  next
    case 8
    then show ?thesis by (simp add: Decode_DataPortion_def lb assemble.simps Let_def)
  next
    case 9
    then show ?thesis by (simp add: Decode_DataPortion_def lb assemble.simps Let_def)
  qed
qed

lemma assemble_is_bit:
  "list_all is_bit acc \<Longrightarrow> list_all is_bit (fst (assemble k (bitstr b) (acc, kl)))"
  by (simp add: assemble.simps)

text \<open>One pass of the loop on a valid half-bit.\<close>

lemma loop_body_bit:
  assumes sr: "samplerate s = Some r" "r \<noteq> 0" and hc: "Header_Completed s \<noteq> 0"
    and tc: "trig_cond s = Cond_Edge" and pe: "pending s = e # es"
    and k: "0 \<le> Bitcnt s" "Bitcnt s \<le> 65"
    and p2: "Bitcnt s \<noteq> 65 \<longrightarrow> es = e2 # es'"
    and hb: "half_bit b (dur r (prevN s) e)"
    and ok: "list_all is_bit (BitString s)"
  shows "\<exists>s'. loop_body s = Return () s'
           \<and> (BitString s', KeyLoq s') = assemble (Bitcnt s) (bitstr b) (BitString s, KeyLoq s)
           \<and> samplerate s' = Some r \<and> trig_cond s' = Cond_Edge \<and> TEcnt s' = TEcnt s
           \<and> (if Bitcnt s = 65
               then Bitcnt s' = 0 \<and> Header_Completed s' = 0 \<and> pending s' = es
                    \<and> prevN s' = fst e
               else Bitcnt s' = Bitcnt s + 1 \<and> Header_Completed s' = Header_Completed s
                    \<and> pending s' = es' \<and> prevN s' = fst e2)"
proof -
  let ?s1 = "s\<lparr>samplenum := fst e, pending := es, n := fst e\<rparr>"
  have "\<exists>s'. Decode_DataPortion (dur r (prevN s) e) ?s1 = Return () s'
           \<and> (BitString s', KeyLoq s') = assemble (Bitcnt ?s1) (bitstr b) (BitString ?s1, KeyLoq ?s1)
           \<and> samplerate s' = samplerate ?s1 \<and> trig_cond s' = trig_cond ?s1 \<and> TEcnt s' = TEcnt ?s1
           \<and> prevN s' = prevN ?s1
           \<and> (if Bitcnt ?s1 = 65
               then Bitcnt s' = - 1 \<and> Header_Completed s' = 0 \<and> pending s' = pending ?s1
                    \<and> samplenum s' = samplenum ?s1
               else Bitcnt s' = Bitcnt ?s1 \<and> Header_Completed s' = Header_Completed ?s1
                    \<and> pending s' = es' \<and> samplenum s' = fst e2)"
    using hb tc k p2 ok by (intro Decode_DataPortion_valid) simp_all
  then obtain s2 where d: "Decode_DataPortion (dur r (prevN s) e) ?s1 = Return () s2"
    and f: "(BitString s2, KeyLoq s2) = assemble (Bitcnt s) (bitstr b) (BitString s, KeyLoq s)"
      "samplerate s2 = samplerate s" "trig_cond s2 = trig_cond s" "TEcnt s2 = TEcnt s"
      "if Bitcnt s = 65
       then Bitcnt s2 = - 1 \<and> Header_Completed s2 = 0 \<and> pending s2 = es \<and> samplenum s2 = fst e
       else Bitcnt s2 = Bitcnt s \<and> Header_Completed s2 = Header_Completed s
            \<and> pending s2 = es' \<and> samplenum s2 = fst e2"
    by auto
  have "loop_body s = Return () (s2\<lparr>Bitcnt := Bitcnt s2 + 1, prevN := samplenum s2\<rparr>)"
    using sr hc tc pe d by (simp add: loop_body_def wait_def Let_def dur_def)
  with f sr tc show ?thesis by (auto split: if_splits)
qed

lemma data_run:
  assumes "samplerate s = Some r" and "r \<noteq> 0" and "Header_Completed s \<noteq> 0"
    and "trig_cond s = Cond_Edge" and "0 \<le> Bitcnt s" and "Bitcnt s \<le> 65"
    and "list_all is_bit (BitString s)"
    and "data_edges r (Bitcnt s) (prevN s) bs (pending s) = Some (p, rest)"
    and "bs \<noteq> []"
  shows "\<exists>s'. loop_n (length bs) s = Return () s'
           \<and> (BitString s', KeyLoq s') = assemble_bits (Bitcnt s) bs (BitString s, KeyLoq s)
           \<and> samplerate s' = Some r \<and> trig_cond s' = Cond_Edge \<and> TEcnt s' = TEcnt s
           \<and> pending s' = rest \<and> prevN s' = p \<and> list_all is_bit (BitString s')
           \<and> Bitcnt s + int (length bs) \<le> 66
           \<and> (if Bitcnt s + int (length bs) = 66
               then Bitcnt s' = 0 \<and> Header_Completed s' = 0
               else Bitcnt s' = Bitcnt s + int (length bs)
                    \<and> Header_Completed s' = Header_Completed s)"
  using assms
proof (induction bs arbitrary: s)
  case Nil
  then show ?case by simp
next
  case (Cons b bs)
  from Cons.prems(8) obtain e es where pe: "pending s = e # es"
    by (cases "pending s") auto
  from Cons.prems(8) pe have hb: "half_bit b (dur r (prevN s) e)"
    by (auto split: if_splits)
  show ?case
  proof (cases "Bitcnt s = 65")
    case True
    with Cons.prems(8) pe hb have bs: "bs = []" and pr: "p = fst e" "rest = es"
      by (auto split: if_splits)
    from True have p2: "Bitcnt s \<noteq> 65 \<longrightarrow> es = e # es" by simp
    from loop_body_bit [OF Cons.prems(1-4) pe Cons.prems(5,6) p2 hb Cons.prems(7)] True
    obtain s' where b1: "loop_body s = Return () s'"
      and f: "(BitString s', KeyLoq s') = assemble (Bitcnt s) (bitstr b) (BitString s, KeyLoq s)"
        "samplerate s' = Some r" "trig_cond s' = Cond_Edge" "TEcnt s' = TEcnt s"
        "Bitcnt s' = 0" "Header_Completed s' = 0" "pending s' = es" "prevN s' = fst e"
      by auto
    from f(1) have "BitString s' = fst (assemble (Bitcnt s) (bitstr b) (BitString s, KeyLoq s))"
      by (metis fst_conv)
    with Cons.prems(7) have "list_all is_bit (BitString s')"
      by (simp add: assemble_is_bit)
    with b1 f bs pr True show ?thesis by simp
  next
    case False
    with Cons.prems(8) pe hb obtain e2 es' where es: "es = e2 # es'"
      and de: "data_edges r (Bitcnt s + 1) (fst e2) bs es' = Some (p, rest)"
      by (auto split: if_splits list.splits)
    from es have p2: "Bitcnt s \<noteq> 65 \<longrightarrow> es = e2 # es'" by simp
    from loop_body_bit [OF Cons.prems(1-4) pe Cons.prems(5,6) p2 hb Cons.prems(7)] False
    obtain s1 where b1: "loop_body s = Return () s1"
      and f: "(BitString s1, KeyLoq s1) = assemble (Bitcnt s) (bitstr b) (BitString s, KeyLoq s)"
        "samplerate s1 = Some r" "trig_cond s1 = Cond_Edge" "TEcnt s1 = TEcnt s"
        "Bitcnt s1 = Bitcnt s + 1" "Header_Completed s1 = Header_Completed s"
        "pending s1 = es'" "prevN s1 = fst e2"
      by auto
    from f(1) have "BitString s1 = fst (assemble (Bitcnt s) (bitstr b) (BitString s, KeyLoq s))"
      by (metis fst_conv)
    with Cons.prems(7) have ok1: "list_all is_bit (BitString s1)"
      by (simp add: assemble_is_bit)
    show ?thesis
    proof (cases "bs = []")
      case True
      with de have "p = fst e2" "rest = es'" by simp_all
      have a1: "assemble_bits (Bitcnt s) (b # bs) (BitString s, KeyLoq s) = (BitString s1, KeyLoq s1)"
        using True f(1) by simp
      have n1: "loop_n (length (b # bs)) s = Return () s1"
        using True b1 by simp
      have t1: "Bitcnt s + int (length (b # bs)) = Bitcnt s + 1"
        using True by simp
      have c1: "Bitcnt s + 1 \<le> 66" "Bitcnt s + 1 \<noteq> 66"
        using False Cons.prems(6) by simp_all
      show ?thesis
        unfolding a1 t1
        using n1 f(2-8) ok1 c1 \<open>p = fst e2\<close> \<open>rest = es'\<close> by simp
    next
      case nonempty: False
      from f Cons.prems(3) have hc1: "Header_Completed s1 \<noteq> 0" by simp
      from f Cons.prems(5) have k0: "0 \<le> Bitcnt s1" by simp
      from f False Cons.prems(6) have k1: "Bitcnt s1 \<le> 65" by simp
      from de f have de1: "data_edges r (Bitcnt s1) (prevN s1) bs (pending s1) = Some (p, rest)"
        by simp
      from Cons.IH [OF f(2) Cons.prems(2) hc1 f(3) k0 k1 ok1 de1 nonempty]
      obtain s' where r: "loop_n (length bs) s1 = Return () s'"
        and g: "(BitString s', KeyLoq s') = assemble_bits (Bitcnt s1) bs (BitString s1, KeyLoq s1)"
          "samplerate s' = Some r" "trig_cond s' = Cond_Edge" "TEcnt s' = TEcnt s1"
          "pending s' = rest" "prevN s' = p" "list_all is_bit (BitString s')"
          "Bitcnt s1 + int (length bs) \<le> 66"
          "if Bitcnt s1 + int (length bs) = 66
           then Bitcnt s' = 0 \<and> Header_Completed s' = 0
           else Bitcnt s' = Bitcnt s1 + int (length bs)
                \<and> Header_Completed s' = Header_Completed s1"
        by blast
      have a1: "assemble_bits (Bitcnt s) (b # bs) (BitString s, KeyLoq s) = (BitString s', KeyLoq s')"
        using g(1) f(5) by (simp add: f(1) [symmetric])
      have n1: "loop_n (length (b # bs)) s = Return () s'"
        using b1 r by simp
      have t1: "Bitcnt s + int (length (b # bs)) = Bitcnt s1 + int (length bs)"
        using f(5) by simp
      have h1: "Header_Completed s1 = Header_Completed s" by (rule f(6))
      show ?thesis
        unfolding a1 t1 h1 [symmetric]
        using n1 g(2-9) f(4) by simp
    qed
  qed
qed

lemma data_edges_take:
  "data_edges r k p bs es = Some (q, rest) \<Longrightarrow>
     \<exists>q' rest'. data_edges r k p (take j bs) es = Some (q', rest')"
proof (induction bs arbitrary: k p es j)
  case Nil
  then show ?case by simp
next
  case (Cons b bs)
  show ?case
  proof (cases j)
    case 0
    then show ?thesis by simp
  next
    case (Suc i)
    from Cons.prems obtain e es1 where es: "es = e # es1" by (cases es) auto
    show ?thesis
    proof (cases "k = 65")
      case True
      with Cons.prems es Suc show ?thesis by (auto split: if_splits)
    next
      case False
      with Cons.prems es obtain e2 es2 where es1: "es1 = e2 # es2"
        and hb: "half_bit b (dur r p e)"
        and de: "data_edges r (k + 1) (fst e2) bs es2 = Some (q, rest)"
        by (auto split: if_splits list.splits)
      from Cons.IH [OF de, of i] obtain q' rest'
        where "data_edges r (k + 1) (fst e2) (take i bs) es2 = Some (q', rest')"
        by blast
      with False es es1 hb Suc show ?thesis by simp
    qed
  qed
qed

text \<open>The counter after the first \<open>j\<close> bits of a valid data portion.\<close>

lemma data_prefix:
  assumes "samplerate s = Some r" and "r \<noteq> 0" and "Header_Completed s \<noteq> 0"
    and "trig_cond s = Cond_Edge" and "0 \<le> Bitcnt s" and "Bitcnt s \<le> 65"
    and "list_all is_bit (BitString s)"
    and "data_edges r (Bitcnt s) (prevN s) bs (pending s) = Some (p, rest)"
    and "j \<le> length bs" and "Bitcnt s + int j \<le> 65"
  shows "\<exists>s'. loop_n j s = Return () s' \<and> Bitcnt s' = Bitcnt s + int j
           \<and> Header_Completed s' = Header_Completed s
           \<and> samplerate s' = Some r \<and> trig_cond s' = Cond_Edge
           \<and> list_all is_bit (BitString s')
           \<and> (BitString s', KeyLoq s') = assemble_bits (Bitcnt s) (take j bs) (BitString s, KeyLoq s)"
proof (cases j)
  case 0
  with assms show ?thesis by simp
next
  case (Suc i)
  from data_edges_take [OF assms(8), of j] obtain q' rest'
    where de: "data_edges r (Bitcnt s) (prevN s) (take j bs) (pending s) = Some (q', rest')"
    by blast
  from Suc assms(9) have ne: "take j bs \<noteq> []" by auto
  from assms(9) have len: "length (take j bs) = j" by simp
  from data_run [OF assms(1-7) de ne] assms(10) show ?thesis
    unfolding len by (auto split: if_splits)
qed

lemma Bitcnt_Decode_LogicalBit:
  "Decode_LogicalBit t s = Return b s' \<Longrightarrow> Bitcnt s' = Bitcnt s \<or> Bitcnt s' = - 1"
  by (auto simp: Decode_LogicalBit_def Let_def wait_def split: if_splits option.splits cond.splits list.splits)

lemma Bitcnt_close_field: "close_field l k c s = Return u s' \<Longrightarrow> Bitcnt s' = Bitcnt s"
  by (auto simp: close_field_def Let_def split: sum.splits)

lemma Bitcnt_Decode_DataPortion:
  assumes "Decode_DataPortion t s = Return u s'"
  shows "(Bitcnt s' = Bitcnt s \<or> Bitcnt s' = - 1) \<and> (Bitcnt s = 65 \<longrightarrow> Bitcnt s' = - 1)"
  using assms unfolding Decode_DataPortion_def Let_def
  by (auto split: if_splits outcome.splits dest!: Bitcnt_Decode_LogicalBit Bitcnt_close_field)

lemma Bitcnt_loop_body:
  assumes "loop_body s = Return u s'" and "0 \<le> Bitcnt s" and "Bitcnt s \<le> 65"
  shows "0 \<le> Bitcnt s' \<and> Bitcnt s' \<le> 65"
proof -
  from assms(1) obtain s1 r where w: "wait s = Some s1" and sr: "samplerate s1 = Some r" "r \<noteq> 0"
    by (auto simp: loop_body_def Let_def split: option.splits if_splits)
  from w have b1: "Bitcnt s1 = Bitcnt s"
    by (auto simp: wait_def split: cond.splits list.splits)
  let ?s1 = "s1\<lparr>n := samplenum s1\<rparr>"
  show ?thesis
  proof (cases "Header_Completed s1 = 0")
    case True
    with assms(1) w sr have "Bitcnt s' = Bitcnt s1"
      by (auto simp: loop_body_def Let_def)
    with b1 assms(2,3) show ?thesis by simp
  next
    case False
    with assms(1) w sr obtain s2
      where d: "Decode_DataPortion (real_of_int (n ?s1 - prevN ?s1) / r) ?s1 = Return () s2"
        and e: "Bitcnt s' = Bitcnt s2 + 1"
      by (auto simp: loop_body_def Let_def split: outcome.splits)
    from Bitcnt_Decode_DataPortion [OF d] b1
    have "(Bitcnt s2 = Bitcnt s \<or> Bitcnt s2 = - 1) \<and> (Bitcnt s = 65 \<longrightarrow> Bitcnt s2 = - 1)"
      by simp
    with e assms(2,3) show ?thesis by auto
  qed
qed

subsection \<open>A whole code word\<close>

lemma word_run:
  assumes "samplerate s = Some r" and "r \<noteq> 0" and "Header_Completed s = 0"
    and "trig_cond s = Cond_Edge" and "TEcnt s = 0" and "Bitcnt s = 0"
    and "list_all is_bit (BitString s)"
    and "pending s = P @ h # D"
    and "pulses (\<lambda>t. in_short_te t \<or> in_std_te t) r (prevN s) P"
    and "length P = 23 \<or> length P = 45"
    and "in_header_te (dur r (end_of (prevN s) P) h)"
    and "data_edges r 0 (fst h) bs D = Some (p, rest)" and "length bs = 66"
  shows "\<exists>s'. loop_n (length P + 1 + 66) s = Return () s'
           \<and> (BitString s', KeyLoq s') = assemble_bits 0 bs (BitString s, KeyLoq s)
           \<and> samplerate s' = Some r \<and> trig_cond s' = Cond_Edge \<and> TEcnt s' = 0
           \<and> Bitcnt s' = 0 \<and> Header_Completed s' = 0 \<and> list_all is_bit (BitString s')
           \<and> pending s' = rest \<and> prevN s' = p"
proof -
  from preamble_header [OF assms(1-5) assms(8-11)]
  obtain s1 where r1: "loop_n (length P + 1) s = Return () s1" and f: "TEcnt s1 = 0"
    "Header_Completed s1 = 1" "samplerate s1 = Some r" "trig_cond s1 = Cond_Edge"
    "pending s1 = D" "prevN s1 = fst h" "Bitcnt s1 = Bitcnt s" "BitString s1 = BitString s"
    "KeyLoq s1 = KeyLoq s"
    by blast
  from f assms(6) have k: "Bitcnt s1 = 0" by simp
  have hc: "Header_Completed s1 \<noteq> 0" "0 \<le> Bitcnt s1" "Bitcnt s1 \<le> 65"
    using f k by simp_all
  have ok: "list_all is_bit (BitString s1)" using f assms(7) by simp
  have de: "data_edges r (Bitcnt s1) (prevN s1) bs (pending s1) = Some (p, rest)"
    using assms(12) f k by simp
  have ne: "bs \<noteq> []" using assms(13) by auto
  from data_run [OF f(3) assms(2) hc(1) f(4) hc(2,3) ok de ne]
  obtain s' where r2: "loop_n (length bs) s1 = Return () s'"
    and g: "(BitString s', KeyLoq s') = assemble_bits (Bitcnt s1) bs (BitString s1, KeyLoq s1)"
      "samplerate s' = Some r" "trig_cond s' = Cond_Edge" "TEcnt s' = TEcnt s1"
      "pending s' = rest" "prevN s' = p" "list_all is_bit (BitString s')"
      "if Bitcnt s1 + int (length bs) = 66
       then Bitcnt s' = 0 \<and> Header_Completed s' = 0
       else Bitcnt s' = Bitcnt s1 + int (length bs) \<and> Header_Completed s' = Header_Completed s1"
    by blast
  from g(8) k assms(13) have w: "Bitcnt s' = 0" "Header_Completed s' = 0" by simp_all
  from r2 assms(13) have r2': "loop_n 66 s1 = Return () s'" by simp
  from loop_n_Return_add [OF r1 r2'] have "loop_n (length P + 1 + 66) s = Return () s'" .
  moreover have "(BitString s', KeyLoq s') = assemble_bits 0 bs (BitString s, KeyLoq s)"
    using g(1) k f(8,9) by simp
  ultimately show ?thesis using g(2-7) f(1) w by simp
qed

text \<open>A whole transmission and nothing after it, from a decoder that has only been reset.\<close>

lemma decode_word:
  assumes "r \<noteq> 0"
    and "pending obj = (x, True) # P @ h # D"
    and "length P = 23 \<or> length P = 45"
    and "pulses (\<lambda>t. in_short_te t \<or> in_std_te t) r x P"
    and "in_header_te (dur r (end_of x P) h)"
    and "data_edges r 0 (fst h) bs D = Some (p, [])" and "length bs = 66"
  shows "\<exists>s'. decode (metadata r (reset obj)) = Ended s'
           \<and> (BitString s', KeyLoq s') = assemble_bits 0 bs ('''', KeyLoq_init)"
proof -
  let ?s = "metadata r (reset obj)"
  let ?s1 = "?s\<lparr>trig_cond := Cond_Edge, samplenum := x, pending := P @ h # D, prevN := x\<rparr>"
  have b: "decode_begin ?s = Return () ?s1"
    using assms(2) by (intro decode_begin_rising) simp_all
  have "\<exists>s'. loop_n (length P + 1 + 66) ?s1 = Return () s'
           \<and> (BitString s', KeyLoq s') = assemble_bits 0 bs (BitString ?s1, KeyLoq ?s1)
           \<and> samplerate s' = Some r \<and> trig_cond s' = Cond_Edge \<and> TEcnt s' = 0
           \<and> Bitcnt s' = 0 \<and> Header_Completed s' = 0 \<and> list_all is_bit (BitString s')
           \<and> pending s' = [] \<and> prevN s' = p"
    using assms by (intro word_run [where h = h and D = D]) simp_all
  then obtain s' where l: "loop_n (length P + 1 + 66) ?s1 = Return () s'"
    and f: "(BitString s', KeyLoq s') = assemble_bits 0 bs ('''', KeyLoq_init)"
      "trig_cond s' = Cond_Edge" "pending s' = []"
    by auto
  from decode_loop_loop_n [OF l] decode_loop_no_edge [OF f(3) f(2)]
  have "decode_loop ?s1 = Ended s'" by simp
  with b f(1) show ?thesis by (simp add: decode_def)
qed

lemma scenario_assemble:
  "assemble_bits 0 scenario_bits ('''', kl) =
     ('''', kl(''Encrypted'' \<mapsto> ''0x55555555'', ''Serial-Number'' \<mapsto> ''0x0000000'',
        ''S3'' \<mapsto> ''1'', ''S0'' \<mapsto> ''0'', ''S1'' \<mapsto> ''1'', ''S2'' \<mapsto> ''0'',
        ''V-Low'' \<mapsto> ''Battery Low'', ''RPT'' \<mapsto> ''No''))"
  by (simp add: scenario_bits_def replicate_numeral assemble.simps bitstr_def hexstr_def
      bin_value_def format_0x_def hex_digits.simps)

lemma scenario_stream_eq:
  "scenario_stream = (0, True) # edges_from 0 True (replicate 23 400) @ (13200, True)
      # edges_from 13200 True (butlast (pwm scenario_bits))"
  by (simp add: scenario_stream_def replicate_numeral)

lemma scenario_pulses: "pulses in_std_te 1000000 0 (edges_from 0 True (replicate 23 400))"
  by (simp add: replicate_numeral dur_def in_std_te_iff)

lemma scenario_data:
  "data_edges 1000000 0 13200 scenario_bits (edges_from 13200 True (butlast (pwm scenario_bits)))
     = Some (92000, [])"
  by (simp add: scenario_bits_def replicate_numeral dur_def half_bit_def in_std_te_iff in_bit0_te_iff)

lemma scenario_decode:
  "\<exists>s'. decode (metadata 1000000 (reset (fresh\<lparr>pending := scenario_stream\<rparr>))) = Ended s'
     \<and> (BitString s', KeyLoq s') = assemble_bits 0 scenario_bits ('''', KeyLoq_init)"
  by (rule decode_word [where x = 0 and P = "edges_from 0 True (replicate 23 400)"
        and h = "(13200, True)" and D = "edges_from 13200 True (butlast (pwm scenario_bits))"
        and p = 92000])
    (simp_all add: scenario_stream_eq scenario_data pulses_std [OF scenario_pulses]
      dur_def in_header_te_iff,
     simp_all add: scenario_bits_def replicate_numeral)

text \<open>
  Claim C1, as amended. A recording holds a rising edge, 23 edges at standard TE
  distances, an edge after a gap of 4 ms and the edges of the 66 bits of
  \<open>scenario_bits\<close>, and ends there. A decoder that has been reset and given a positive
  sample rate decodes it to Encrypted = 0x55555555 (eight digits: the 32 alternating bits
  have that value and no digit is dropped), Serial-Number = 0x0000000, S3 = 1, S0 = 0,
  S1 = 1, S2 = 0, V-Low = Battery Low and RPT = No.
\<close>

theorem scenario_code_word:
  assumes "0 < r"
    and "pending obj = (x, True) # P @ h # D"
    and "length P = 23" and "pulses te_bit1 r x P"
    and "dur r (end_of x P) h = 4 / 10 ^ 3"
    and "data_edges r 0 (fst h) scenario_bits D = Some (p, [])"
  shows "\<exists>s'. decode (metadata r (reset obj)) = Ended s'
           \<and> KeyLoq s' ''Encrypted'' = Some ''0x55555555''
           \<and> KeyLoq s' ''Serial-Number'' = Some ''0x0000000''
           \<and> KeyLoq s' ''S3'' = Some ''1'' \<and> KeyLoq s' ''S0'' = Some ''0''
           \<and> KeyLoq s' ''S1'' = Some ''1'' \<and> KeyLoq s' ''S2'' = Some ''0''
           \<and> KeyLoq s' ''V-Low'' = Some ''Battery Low'' \<and> KeyLoq s' ''RPT'' = Some ''No''"
proof -
  have hd: "in_header_te (dur r (end_of x P) h)"
    unfolding assms(5) by (simp add: in_header_te_iff)
  have len: "length scenario_bits = 66" by (simp add: scenario_bits_def replicate_numeral)
  from assms(1) have r0: "r \<noteq> 0" by simp
  from assms(3) have l: "length P = 23 \<or> length P = 45" by simp
  from decode_word [OF r0 assms(2) l pulses_std [OF assms(4) [unfolded te_windows]] hd assms(6) len]
  obtain s' where d: "decode (metadata r (reset obj)) = Ended s'"
    and a: "(BitString s', KeyLoq s') = assemble_bits 0 scenario_bits ('''', KeyLoq_init)"
    by blast
  from a have "KeyLoq s' = snd (assemble_bits 0 scenario_bits ('''', KeyLoq_init))"
    by (metis snd_conv)
  then have "KeyLoq s' = KeyLoq_init(''Encrypted'' \<mapsto> ''0x55555555'', ''Serial-Number'' \<mapsto> ''0x0000000'',
        ''S3'' \<mapsto> ''1'', ''S0'' \<mapsto> ''0'', ''S1'' \<mapsto> ''1'', ''S2'' \<mapsto> ''0'',
        ''V-Low'' \<mapsto> ''Battery Low'', ''RPT'' \<mapsto> ''No'')"
    by (simp add: scenario_assemble)
  with d show ?thesis by simp
qed

theorem scenario_code_word_witness:
  "KeyLoq (state_of (decode (metadata 1000000 (reset (fresh\<lparr>pending := scenario_stream\<rparr>)))))
     ''Encrypted'' = Some ''0x55555555''
   \<and> KeyLoq (state_of (decode (metadata 1000000 (reset (fresh\<lparr>pending := scenario_stream\<rparr>)))))
     ''Serial-Number'' = Some ''0x0000000''
   \<and> KeyLoq (state_of (decode (metadata 1000000 (reset (fresh\<lparr>pending := scenario_stream\<rparr>)))))
     ''S3'' = Some ''1''
   \<and> KeyLoq (state_of (decode (metadata 1000000 (reset (fresh\<lparr>pending := scenario_stream\<rparr>)))))
     ''V-Low'' = Some ''Battery Low''
   \<and> KeyLoq (state_of (decode (metadata 1000000 (reset (fresh\<lparr>pending := scenario_stream\<rparr>)))))
     ''RPT'' = Some ''No''"
proof -
  have "\<exists>s'. decode (metadata 1000000 (reset (fresh\<lparr>pending := scenario_stream\<rparr>))) = Ended s'
           \<and> KeyLoq s' ''Encrypted'' = Some ''0x55555555''
           \<and> KeyLoq s' ''Serial-Number'' = Some ''0x0000000''
           \<and> KeyLoq s' ''S3'' = Some ''1'' \<and> KeyLoq s' ''S0'' = Some ''0''
           \<and> KeyLoq s' ''S1'' = Some ''1'' \<and> KeyLoq s' ''S2'' = Some ''0''
           \<and> KeyLoq s' ''V-Low'' = Some ''Battery Low'' \<and> KeyLoq s' ''RPT'' = Some ''No''"
    by (rule scenario_code_word [where x = 0 and P = "edges_from 0 True (replicate 23 400)"
          and h = "(13200, True)" and D = "edges_from 13200 True (butlast (pwm scenario_bits))"
          and p = 92000])
      (simp_all add: scenario_stream_eq scenario_data scenario_pulses dur_def,
       simp_all add: replicate_numeral)
  then show ?thesis by auto
qed

text \<open>On the recording with nominal timing at 1 MHz the encrypted field is not 0x5555555.\<close>

theorem scenario_code_word_counterexample:
  "KeyLoq (state_of (decode (metadata 1000000 (reset (fresh\<lparr>pending := scenario_stream\<rparr>)))))
     ''Encrypted'' = Some ''0x55555555''
   \<and> KeyLoq (state_of (decode (metadata 1000000 (reset (fresh\<lparr>pending := scenario_stream\<rparr>)))))
     ''Encrypted'' \<noteq> Some ''0x5555555''"
proof -
  from scenario_decode obtain s'
    where d: "decode (metadata 1000000 (reset (fresh\<lparr>pending := scenario_stream\<rparr>))) = Ended s'"
      and a: "(BitString s', KeyLoq s') = assemble_bits 0 scenario_bits ('''', KeyLoq_init)"
    by blast
  from a have "KeyLoq s' = snd (assemble_bits 0 scenario_bits ('''', KeyLoq_init))"
    by (metis snd_conv)
  with d show ?thesis by (simp add: scenario_assemble)
qed

text \<open>
  Claim C7. The data portion starts with \<open>Bitcnt\<close> at 0 and the recording carries 66
  valid bits. Then at the head of the loop the counter is \<open>j\<close> after \<open>j\<close> passes, for
  every \<open>j\<close> up to 65, with the header still completed; the pass for bit 65 stores the RPT
  field, and only that field, sets the counter to 0 and clears \<open>Header_Completed\<close>. On
  any input at all, a pass that starts with the counter between 0 and 65 ends with it
  between 0 and 65.
\<close>

theorem bit_counter_cycle:
  assumes "samplerate s = Some r" and "r \<noteq> 0" and "Header_Completed s \<noteq> 0"
    and "trig_cond s = Cond_Edge" and "Bitcnt s = 0" and "list_all is_bit (BitString s)"
    and "data_edges r 0 (prevN s) bs (pending s) = Some (p, rest)" and "length bs = 66"
  shows "(\<forall>j\<le>65. \<exists>s'. loop_n j s = Return () s' \<and> Bitcnt s' = int j
                    \<and> Header_Completed s' = Header_Completed s)
         \<and> (\<exists>s1 s'. loop_n 65 s = Return () s1 \<and> loop_body s1 = Return () s'
                \<and> Bitcnt s' = 0 \<and> Header_Completed s' = 0
                \<and> KeyLoq s' = (KeyLoq s1)(''RPT'' \<mapsto> (if last bs then ''Yes'' else ''No''))
                \<and> pending s' = rest)
         \<and> (\<forall>a b. 0 \<le> Bitcnt a \<and> Bitcnt a \<le> 65 \<and> loop_body a = Return () b
                \<longrightarrow> 0 \<le> Bitcnt b \<and> Bitcnt b \<le> 65)"
proof (intro conjI allI impI)
  fix j :: nat
  assume "j \<le> 65"
  with assms have "\<exists>s'. loop_n j s = Return () s' \<and> Bitcnt s' = Bitcnt s + int j
           \<and> Header_Completed s' = Header_Completed s
           \<and> samplerate s' = Some r \<and> trig_cond s' = Cond_Edge
           \<and> list_all is_bit (BitString s')
           \<and> (BitString s', KeyLoq s') = assemble_bits (Bitcnt s) (take j bs) (BitString s, KeyLoq s)"
    by (intro data_prefix [where p = p and rest = rest]) simp_all
  with assms(5) show "\<exists>s'. loop_n j s = Return () s' \<and> Bitcnt s' = int j
                    \<and> Header_Completed s' = Header_Completed s"
    by auto
next
  have de: "data_edges r (Bitcnt s) (prevN s) bs (pending s) = Some (p, rest)"
    using assms(5,7) by simp
  have ne: "bs \<noteq> []" using assms(8) by auto
  have k: "0 \<le> Bitcnt s" "Bitcnt s \<le> 65" using assms(5) by simp_all
  from data_run [OF assms(1-4) k assms(6) de ne] assms(5,8)
  obtain s2 where l66: "loop_n 66 s = Return () s2"
    and f2: "(BitString s2, KeyLoq s2) = assemble_bits 0 bs (BitString s, KeyLoq s)"
      "pending s2 = rest" "Bitcnt s2 = 0" "Header_Completed s2 = 0"
    by auto
  have "\<exists>s'. loop_n 65 s = Return () s' \<and> Bitcnt s' = Bitcnt s + int 65
           \<and> Header_Completed s' = Header_Completed s
           \<and> samplerate s' = Some r \<and> trig_cond s' = Cond_Edge
           \<and> list_all is_bit (BitString s')
           \<and> (BitString s', KeyLoq s') = assemble_bits (Bitcnt s) (take 65 bs) (BitString s, KeyLoq s)"
    using assms by (intro data_prefix [where p = p and rest = rest]) simp_all
  then obtain s1 where l65: "loop_n 65 s = Return () s1"
    and f1: "(BitString s1, KeyLoq s1) = assemble_bits 0 (take 65 bs) (BitString s, KeyLoq s)"
    using assms(5) by auto
  have "loop_n (65 + Suc 0) s = loop_body s1"
    using l65 by (simp only: loop_n_add loop_n_1 outcome.case)
  moreover have "(65::nat) + Suc 0 = 66" by simp
  ultimately have "loop_n 66 s = loop_body s1" by metis
  with l66 have lb: "loop_body s1 = Return () s2" by metis
  have "butlast bs = take 65 bs"
    using assms(8) by (simp add: butlast_conv_take)
  with ne have split: "bs = take 65 bs @ [last bs]"
    by (metis append_butlast_last_id)
  have ab: "assemble_bits k (xs @ [b]) st = assemble (k + int (length xs)) (bitstr b) (assemble_bits k xs st)" for k xs b st
    by (induction xs arbitrary: k st) (simp_all add: add.assoc)
  have "assemble_bits 0 bs (BitString s, KeyLoq s) = assemble 65 (bitstr (last bs)) (BitString s1, KeyLoq s1)"
    using ab [of 0 "take 65 bs" "last bs" "(BitString s, KeyLoq s)"] split assms(8) f1 by simp
  with f2(1) have "KeyLoq s2 = (KeyLoq s1)(''RPT'' \<mapsto> (if last bs then ''Yes'' else ''No''))"
    by (simp add: assemble.simps bitstr_def)
  with l65 lb f2 show "\<exists>s1 s'. loop_n 65 s = Return () s1 \<and> loop_body s1 = Return () s'
                \<and> Bitcnt s' = 0 \<and> Header_Completed s' = 0
                \<and> KeyLoq s' = (KeyLoq s1)(''RPT'' \<mapsto> (if last bs then ''Yes'' else ''No''))
                \<and> pending s' = rest"
    by blast
next
  fix a b
  assume "0 \<le> Bitcnt a \<and> Bitcnt a \<le> 65 \<and> loop_body a = Return () b"
  then show "0 \<le> Bitcnt b" "Bitcnt b \<le> 65"
    using Bitcnt_loop_body [of a "()" b] by simp_all
qed

theorem bit_counter_cycle_witness:
  "Bitcnt (state_of (loop_n 65 ((metadata 1000000 (reset fresh))\<lparr>Header_Completed := 1,
      trig_cond := Cond_Edge, prevN := 13200,
      pending := edges_from 13200 True (butlast (pwm scenario_bits))\<rparr>))) = 65
   \<and> Header_Completed (state_of (loop_n 65 ((metadata 1000000 (reset fresh))\<lparr>Header_Completed := 1,
      trig_cond := Cond_Edge, prevN := 13200,
      pending := edges_from 13200 True (butlast (pwm scenario_bits))\<rparr>))) = 1
   \<and> Bitcnt (state_of (loop_n 66 ((metadata 1000000 (reset fresh))\<lparr>Header_Completed := 1,
      trig_cond := Cond_Edge, prevN := 13200,
      pending := edges_from 13200 True (butlast (pwm scenario_bits))\<rparr>))) = 0
   \<and> Header_Completed (state_of (loop_n 66 ((metadata 1000000 (reset fresh))\<lparr>Header_Completed := 1,
      trig_cond := Cond_Edge, prevN := 13200,
      pending := edges_from 13200 True (butlast (pwm scenario_bits))\<rparr>))) = 0
   \<and> KeyLoq (state_of (loop_n 66 ((metadata 1000000 (reset fresh))\<lparr>Header_Completed := 1,
      trig_cond := Cond_Edge, prevN := 13200,
      pending := edges_from 13200 True (butlast (pwm scenario_bits))\<rparr>))) ''RPT'' = Some ''No''"
proof -
  let ?s = "(metadata 1000000 (reset fresh))\<lparr>Header_Completed := 1, trig_cond := Cond_Edge,
              prevN := 13200, pending := edges_from 13200 True (butlast (pwm scenario_bits))\<rparr>"
  have len: "length scenario_bits = 66" by (simp add: scenario_bits_def replicate_numeral)
  have lst: "last scenario_bits = False" by (simp add: scenario_bits_def)
  have c: "(\<forall>j\<le>65. \<exists>s'. loop_n j ?s = Return () s' \<and> Bitcnt s' = int j
                    \<and> Header_Completed s' = Header_Completed ?s)
         \<and> (\<exists>s1 s'. loop_n 65 ?s = Return () s1 \<and> loop_body s1 = Return () s'
                \<and> Bitcnt s' = 0 \<and> Header_Completed s' = 0
                \<and> KeyLoq s' = (KeyLoq s1)(''RPT'' \<mapsto> (if last scenario_bits then ''Yes'' else ''No''))
                \<and> pending s' = [])
         \<and> (\<forall>a b. 0 \<le> Bitcnt a \<and> Bitcnt a \<le> 65 \<and> loop_body a = Return () b
                \<longrightarrow> 0 \<le> Bitcnt b \<and> Bitcnt b \<le> 65)"
    by (rule bit_counter_cycle [where r = 1000000 and p = 92000])
      (simp_all add: scenario_data len)
  from c obtain s65 where a: "loop_n 65 ?s = Return () s65" "Bitcnt s65 = int 65"
    "Header_Completed s65 = Header_Completed ?s"
    by blast
  from c lst obtain s1 s' where b: "loop_n 65 ?s = Return () s1" "loop_body s1 = Return () s'"
    "Bitcnt s' = 0" "Header_Completed s' = 0" "KeyLoq s' ''RPT'' = Some ''No''"
    by auto
  from loop_n_snoc [OF b(1,2)] have b66: "loop_n 66 ?s = Return () s'" by simp
  from a b(3-5) show ?thesis unfolding b66 by simp
qed

subsection \<open>Invalid half-bits in the data portion\<close>

lemma Decode_DataPortion_invalid_acc:
  assumes "\<not> in_std_te t" and "\<not> in_bit0_te t" and "Bitcnt s \<le> 59"
  shows "Decode_DataPortion t s =
           Return ()
             ((put (prevN s) (n s) (Ann_LOGICAL_BIT, [''>>> Invalid Bit <<< '']) s)
                \<lparr>Block_Init := 0, Header_Completed := 0, Bitcnt := - 1, BitString := ''0''\<rparr>)"
  using assms
  by (simp add: Decode_DataPortion_def Decode_LogicalBit_invalid Reset_DP_Cnts_def Let_def)

lemma Decode_DataPortion_invalid_button:
  assumes "\<not> in_std_te t" and "\<not> in_bit0_te t" and "60 \<le> Bitcnt s" and "Bitcnt s \<le> 63"
  shows "Decode_DataPortion t s =
           Return ()
             ((put (prevN s) (n s) (Ann_LOGICAL_BIT, [''>>> Invalid Bit <<< '']) s)
                \<lparr>Block_Init := 0, Header_Completed := 0, Bitcnt := - 1, BitString := ''''\<rparr>)"
  using assms
  by (simp add: Decode_DataPortion_def Decode_LogicalBit_invalid Reset_DP_Cnts_def Let_def)

lemma Decode_DataPortion_invalid_vlow:
  assumes "\<not> in_std_te t" and "\<not> in_bit0_te t" and "Bitcnt s = 64"
  shows "Decode_DataPortion t s =
           Return ()
             (s\<lparr>out := out s @ [(prevN s, n s, Ann_LOGICAL_BIT, [''>>> Invalid Bit <<< '']),
                                 (ssBlock s, n s, Ann_CODE_WORD, [''V-Low'']),
                                 (prevN s, n s, Ann_FIXED_DATA, [''Battery High''])],
                 KeyLoq := (KeyLoq s)(''V-Low'' \<mapsto> ''Battery High''),
                 Block_Init := 0, Header_Completed := 0, Bitcnt := - 1, BitString := ''''\<rparr>)"
  using assms
  by (simp add: Decode_DataPortion_def Decode_LogicalBit_invalid Reset_DP_Cnts_def put_def Let_def)

lemma Decode_DataPortion_invalid_rpt:
  assumes "\<not> in_std_te t" and "\<not> in_bit0_te t" and "Bitcnt s = 65"
  shows "Decode_DataPortion t s =
           Return ()
             (s\<lparr>out := out s @ [(prevN s, n s, Ann_LOGICAL_BIT, [''>>> Invalid Bit <<< '']),
                                 (ssBlock s, n s, Ann_CODE_WORD, [''RPT'']),
                                 (prevN s, n s, Ann_FIXED_DATA, [''No''])],
                 KeyLoq := (KeyLoq s)(''RPT'' \<mapsto> ''No''),
                 Block_Init := 0, Header_Completed := 0, Bitcnt := - 1, BitString := ''''\<rparr>)"
  using assms
  by (simp add: Decode_DataPortion_def Decode_LogicalBit_invalid Reset_DP_Cnts_def put_def Let_def)

text \<open>
  Claim C10. A duration that is in neither half-bit window arrives in
  \<open>Decode_DataPortion\<close>. At bit 64 the V-Low field is set to Battery High and the V-Low
  block and the field text are put after the invalid-bit annotation; at bit 65 the same
  happens with RPT and No; at bits 60 to 63 no field is changed and only the invalid-bit
  annotation is put.
\<close>

theorem invalid_bit_at_status_fields:
  assumes "\<not> te_bit1 t" and "\<not> te_bit0 t"
  shows "(Bitcnt s = 64 \<longrightarrow>
            KeyLoq (state_of (Decode_DataPortion t s)) = (KeyLoq s)(''V-Low'' \<mapsto> ''Battery High'')
            \<and> out (state_of (Decode_DataPortion t s)) =
                out s @ [(prevN s, n s, Ann_LOGICAL_BIT, [''>>> Invalid Bit <<< '']),
                         (ssBlock s, n s, Ann_CODE_WORD, [''V-Low'']),
                         (prevN s, n s, Ann_FIXED_DATA, [''Battery High''])])
         \<and> (Bitcnt s = 65 \<longrightarrow>
            KeyLoq (state_of (Decode_DataPortion t s)) = (KeyLoq s)(''RPT'' \<mapsto> ''No'')
            \<and> out (state_of (Decode_DataPortion t s)) =
                out s @ [(prevN s, n s, Ann_LOGICAL_BIT, [''>>> Invalid Bit <<< '']),
                         (ssBlock s, n s, Ann_CODE_WORD, [''RPT'']),
                         (prevN s, n s, Ann_FIXED_DATA, [''No''])])
         \<and> (60 \<le> Bitcnt s \<and> Bitcnt s \<le> 63 \<longrightarrow>
            KeyLoq (state_of (Decode_DataPortion t s)) = KeyLoq s
            \<and> out (state_of (Decode_DataPortion t s)) =
                out s @ [(prevN s, n s, Ann_LOGICAL_BIT, [''>>> Invalid Bit <<< ''])])"
  using assms
  by (simp add: Decode_DataPortion_invalid_vlow Decode_DataPortion_invalid_rpt
      Decode_DataPortion_invalid_button)

theorem invalid_bit_at_status_fields_witness:
  "KeyLoq (state_of (Decode_DataPortion (2 / 10 ^ 3) (fresh\<lparr>Header_Completed := 1, Bitcnt := 64\<rparr>)))
     ''V-Low'' = Some ''Battery High''
   \<and> KeyLoq (state_of (Decode_DataPortion (2 / 10 ^ 3) (fresh\<lparr>Header_Completed := 1, Bitcnt := 65\<rparr>)))
     ''RPT'' = Some ''No''
   \<and> KeyLoq (state_of (Decode_DataPortion (2 / 10 ^ 3) (fresh\<lparr>Header_Completed := 1, Bitcnt := 61\<rparr>)))
     ''S0'' = Some ''''"
  using invalid_bit_at_status_fields [of "2 / 10 ^ 3" "fresh\<lparr>Header_Completed := 1, Bitcnt := 64\<rparr>"]
    invalid_bit_at_status_fields [of "2 / 10 ^ 3" "fresh\<lparr>Header_Completed := 1, Bitcnt := 65\<rparr>"]
    invalid_bit_at_status_fields [of "2 / 10 ^ 3" "fresh\<lparr>Header_Completed := 1, Bitcnt := 61\<rparr>"]
  by (simp add: window_iffs fresh_def reset_def KeyLoq_init_def)

lemma loop_body_invalid_acc:
  assumes "samplerate s = Some r" and "r \<noteq> 0" and "Header_Completed s \<noteq> 0"
    and "trig_cond s = Cond_Edge" and "pending s = e # es" and "Bitcnt s \<le> 59"
    and "\<not> in_std_te (dur r (prevN s) e)" and "\<not> in_bit0_te (dur r (prevN s) e)"
  shows "loop_body s =
           Return ()
             (s\<lparr>samplenum := fst e, pending := es, n := fst e,
                 out := out s @ [(prevN s, fst e, Ann_LOGICAL_BIT, [''>>> Invalid Bit <<< ''])],
                 Block_Init := 0, Header_Completed := 0, Bitcnt := 0, BitString := ''0'',
                 prevN := fst e\<rparr>)"
proof -
  let ?s1 = "s\<lparr>samplenum := fst e, pending := es, n := fst e\<rparr>"
  have "Decode_DataPortion (dur r (prevN s) e) ?s1 =
           Return ()
             ((put (prevN ?s1) (n ?s1) (Ann_LOGICAL_BIT, [''>>> Invalid Bit <<< '']) ?s1)
                \<lparr>Block_Init := 0, Header_Completed := 0, Bitcnt := - 1, BitString := ''0''\<rparr>)"
    using assms(6-8) by (intro Decode_DataPortion_invalid_acc) simp_all
  with assms(1-5) show ?thesis
    by (simp add: loop_body_def wait_def Let_def dur_def put_def)
qed

lemma assemble_bits_acc:
  "k + int (length bs) \<le> 31 \<Longrightarrow> snd (assemble_bits k bs (acc, kl)) = kl"
  by (induction bs arbitrary: k acc) (simp_all add: assemble.simps)

text \<open>
  A transmission cut short by an invalid half-bit inside the encrypted field, a pause, and
  a whole transmission: the second code word is assembled on top of the character that
  the first one left in \<open>BitString\<close>.
\<close>

lemma abort_then_word:
  assumes r0: "r \<noteq> 0"
    and pend: "pending obj = (x, True) # P @ h # R"
    and len: "length P = 23 \<or> length P = 45"
    and ps: "pulses (\<lambda>t. in_short_te t \<or> in_std_te t) r x P"
    and hd: "in_header_te (dur r (end_of x P) h)"
    and d1: "data_edges r 0 (fst h) bs R = Some (p, e # g # P' @ h' # D')"
    and bs: "bs \<noteq> []" "length bs \<le> 31"
    and bad: "\<not> in_std_te (dur r p e)" "\<not> in_bit0_te (dur r p e)"
    and gap: "\<not> in_short_te (dur r (fst e) g)" "\<not> in_std_te (dur r (fst e) g)"
    and len': "length P' = 23 \<or> length P' = 45"
    and ps': "pulses (\<lambda>t. in_short_te t \<or> in_std_te t) r (fst g) P'"
    and hd': "in_header_te (dur r (end_of (fst g) P') h')"
    and d2: "data_edges r 0 (fst h') bs' D' = Some (p', [])" and l2: "length bs' = 66"
  shows "\<exists>s'. decode (metadata r (reset obj)) = Ended s'
           \<and> (BitString s', KeyLoq s') = assemble_bits 0 bs' (''0'', KeyLoq_init)"
proof -
  let ?s = "metadata r (reset obj)"
  let ?s1 = "?s\<lparr>trig_cond := Cond_Edge, samplenum := x, pending := P @ h # R, prevN := x\<rparr>"
  have b: "decode_begin ?s = Return () ?s1"
    using pend by (intro decode_begin_rising) simp_all
  have "\<exists>s'. loop_n (length P + 1) ?s1 = Return () s' \<and> TEcnt s' = 0 \<and> Header_Completed s' = 1
           \<and> samplerate s' = Some r \<and> trig_cond s' = Cond_Edge \<and> pending s' = R
           \<and> prevN s' = fst h \<and> Bitcnt s' = Bitcnt ?s1 \<and> BitString s' = BitString ?s1
           \<and> KeyLoq s' = KeyLoq ?s1"
    using r0 len ps hd by (intro preamble_header) simp_all
  then obtain s2 where l2': "loop_n (length P + 1) ?s1 = Return () s2"
    and f2: "TEcnt s2 = 0" "Header_Completed s2 = 1" "samplerate s2 = Some r"
      "trig_cond s2 = Cond_Edge" "pending s2 = R" "prevN s2 = fst h" "Bitcnt s2 = 0"
      "BitString s2 = ''''" "KeyLoq s2 = KeyLoq_init"
    by auto
  have "\<exists>s'. loop_n (length bs) s2 = Return () s'
           \<and> (BitString s', KeyLoq s') = assemble_bits (Bitcnt s2) bs (BitString s2, KeyLoq s2)
           \<and> samplerate s' = Some r \<and> trig_cond s' = Cond_Edge \<and> TEcnt s' = TEcnt s2
           \<and> pending s' = e # g # P' @ h' # D' \<and> prevN s' = p \<and> list_all is_bit (BitString s')
           \<and> Bitcnt s2 + int (length bs) \<le> 66
           \<and> (if Bitcnt s2 + int (length bs) = 66
               then Bitcnt s' = 0 \<and> Header_Completed s' = 0
               else Bitcnt s' = Bitcnt s2 + int (length bs)
                    \<and> Header_Completed s' = Header_Completed s2)"
    using r0 f2 d1 bs by (intro data_run) simp_all
  then obtain s3 where l3: "loop_n (length bs) s2 = Return () s3"
    and a3: "(BitString s3, KeyLoq s3) = assemble_bits 0 bs ('''', KeyLoq_init)"
    and f3: "samplerate s3 = Some r" "trig_cond s3 = Cond_Edge" "TEcnt s3 = 0"
      "pending s3 = e # g # P' @ h' # D'" "prevN s3 = p"
      "Bitcnt s3 = int (length bs)" "Header_Completed s3 = 1"
    using f2 bs by (auto split: if_splits)
  from a3 have "KeyLoq s3 = snd (assemble_bits 0 bs ('''', KeyLoq_init))"
    by (metis snd_conv)
  with bs have k3: "KeyLoq s3 = KeyLoq_init" by (simp add: assemble_bits_acc)
  let ?s4 = "s3\<lparr>samplenum := fst e, pending := g # P' @ h' # D', n := fst e,
                 out := out s3 @ [(prevN s3, fst e, Ann_LOGICAL_BIT, [''>>> Invalid Bit <<< ''])],
                 Block_Init := 0, Header_Completed := 0, Bitcnt := 0, BitString := ''0'',
                 prevN := fst e\<rparr>"
  have l4: "loop_body s3 = Return () ?s4"
    using r0 f3 bs bad by (intro loop_body_invalid_acc) simp_all
  let ?s5 = "?s4\<lparr>samplenum := fst g, pending := P' @ h' # D', n := fst g, TEcnt := 0,
                  Block_Init := 0, prevN := fst g\<rparr>"
  have l5: "loop_body ?s4 = Return () ?s5"
    using r0 f3 gap by (intro loop_body_other) simp_all
  have "\<exists>s'. loop_n (length P' + 1 + 66) ?s5 = Return () s'
           \<and> (BitString s', KeyLoq s') = assemble_bits 0 bs' (BitString ?s5, KeyLoq ?s5)
           \<and> samplerate s' = Some r \<and> trig_cond s' = Cond_Edge \<and> TEcnt s' = 0
           \<and> Bitcnt s' = 0 \<and> Header_Completed s' = 0 \<and> list_all is_bit (BitString s')
           \<and> pending s' = [] \<and> prevN s' = p'"
    using r0 f3 len' ps' hd' d2 l2
    by (intro word_run [where h = h' and D = D']) (simp_all add: is_bit_def)
  then obtain s' where l6: "loop_n (length P' + 1 + 66) ?s5 = Return () s'"
    and f6: "(BitString s', KeyLoq s') = assemble_bits 0 bs' (''0'', KeyLoq_init)"
      "trig_cond s' = Cond_Edge" "pending s' = []"
    using k3 by auto
  have "decode_loop ?s1 = decode_loop s2" by (rule decode_loop_loop_n [OF l2'])
  also have "\<dots> = decode_loop s3" by (rule decode_loop_loop_n [OF l3])
  also have "\<dots> = decode_loop ?s4" by (rule decode_loop_step [OF l4])
  also have "\<dots> = decode_loop ?s5" by (rule decode_loop_step [OF l5])
  also have "\<dots> = decode_loop s'" by (rule decode_loop_loop_n [OF l6])
  also have "\<dots> = Ended s'" by (rule decode_loop_no_edge [OF f6(3) f6(2)])
  finally show ?thesis using b f6(1) by (simp add: decode_def)
qed

lemma word1_assemble:
  "snd (assemble_bits 0 word1_bits (''0'', kl)) ''Encrypted'' = Some ''0x0000002''"
  "snd (assemble_bits 0 word1_bits ('''', kl)) ''Encrypted'' = Some ''0x0000001''"
  by (simp_all add: word1_bits_def replicate_numeral assemble.simps bitstr_def hexstr_def
      bin_value_def format_0x_def hex_digits.simps)

text \<open>
  Claim C3. The recording \<open>stale_stream\<close> holds a preamble, a header, ten valid bits and
  a half-bit of 2 ms at bit position 10, then after a pause a whole transmission whose
  encrypted bits have the value 1. The decoder reports the encrypted field of that second
  transmission as 0x0000002: the invalid branch empties \<open>BitString\<close>, but the 0 it
  returns is put in front of the emptied string, and that character is counted as the
  lowest bit of the next code word. The same transmission alone decodes to 0x0000001.
\<close>

theorem invalid_bit_stale_char:
  "KeyLoq (state_of (decode (metadata 1000000 (reset (fresh\<lparr>pending := stale_stream\<rparr>)))))
     ''Encrypted'' = Some ''0x0000002''
   \<and> KeyLoq (state_of (decode (metadata 1000000 (reset (fresh\<lparr>pending := word1_stream\<rparr>)))))
     ''Encrypted'' = Some ''0x0000001''"
proof -
  have "\<exists>s'. decode (metadata 1000000 (reset (fresh\<lparr>pending := stale_stream\<rparr>))) = Ended s'
           \<and> (BitString s', KeyLoq s') = assemble_bits 0 word1_bits (''0'', KeyLoq_init)"
    by (rule abort_then_word [where x = 0 and P = "edges_from 0 True (replicate 23 400)"
          and h = "(13200, True)"
          and R = "edges_from 13200 True (pwm (replicate 10 True)
                     @ [2000, 20000] @ replicate 23 400 @ [4000] @ butlast (pwm word1_bits))"
          and bs = "replicate 10 True" and p = 25200 and e = "(27200, False)"
          and g = "(47200, True)" and P' = "edges_from 47200 True (replicate 23 400)"
          and h' = "(60400, True)" and D' = "edges_from 60400 True (butlast (pwm word1_bits))"
          and p' = 139200])
      (simp_all add: stale_stream_def word1_bits_def replicate_numeral dur_def window_iffs
        half_bit_def)
  then obtain s' where d: "decode (metadata 1000000 (reset (fresh\<lparr>pending := stale_stream\<rparr>))) = Ended s'"
    and a: "(BitString s', KeyLoq s') = assemble_bits 0 word1_bits (''0'', KeyLoq_init)"
    by blast
  from a have "KeyLoq s' = snd (assemble_bits 0 word1_bits (''0'', KeyLoq_init))"
    by (metis snd_conv)
  with d have one: "KeyLoq (state_of (decode (metadata 1000000 (reset (fresh\<lparr>pending := stale_stream\<rparr>)))))
     ''Encrypted'' = Some ''0x0000002''"
    by (simp add: word1_assemble)
  have "\<exists>s'. decode (metadata 1000000 (reset (fresh\<lparr>pending := word1_stream\<rparr>))) = Ended s'
           \<and> (BitString s', KeyLoq s') = assemble_bits 0 word1_bits ('''', KeyLoq_init)"
    by (rule decode_word [where x = 0 and P = "edges_from 0 True (replicate 23 400)"
          and h = "(13200, True)" and D = "edges_from 13200 True (butlast (pwm word1_bits))"
          and p = 92000])
      (simp_all add: word1_stream_def word1_bits_def replicate_numeral dur_def window_iffs
        half_bit_def)
  then obtain s'' where d': "decode (metadata 1000000 (reset (fresh\<lparr>pending := word1_stream\<rparr>))) = Ended s''"
    and a': "(BitString s'', KeyLoq s'') = assemble_bits 0 word1_bits ('''', KeyLoq_init)"
    by blast
  from a' have "KeyLoq s'' = snd (assemble_bits 0 word1_bits ('''', KeyLoq_init))"
    by (metis snd_conv)
  with d' have two: "KeyLoq (state_of (decode (metadata 1000000 (reset (fresh\<lparr>pending := word1_stream\<rparr>)))))
     ''Encrypted'' = Some ''0x0000001''"
    by (simp add: word1_assemble)
  from one two show ?thesis by simp
qed

subsection \<open>\<open>Bin2Hex\<close>\<close>

lemma hexdigit_value_nth:
  assumes "d < 16"
  shows "hexdigit_value (''0123456789ABCDEF'' ! d) = d"
proof -
  have "\<forall>i<16. hexdigit_value (''0123456789ABCDEF'' ! i) = i"
    by (simp add: hexdigit_value_def numeral_eq_Suc All_less_Suc)
  with assms show ?thesis by blast
qed

lemma hex_value_snoc: "hex_value (h @ [c]) = 16 * hex_value h + hexdigit_value c"
  by (simp add: hex_value_def)

lemma hex_value_hex_digits: "hex_value (hex_digits k) = k"
proof (induction k rule: hex_digits.induct)
  case (1 k)
  show ?case
  proof (cases "k < 16")
    case True
    then show ?thesis
      by (subst hex_digits.simps) (simp add: hex_value_def hexdigit_value_nth)
  next
    case False
    with "1.IH" have "hex_value (hex_digits (k div 16)) = k div 16" by simp
    with False show ?thesis
      by (subst hex_digits.simps) (simp add: hex_value_snoc hexdigit_value_nth)
  qed
qed

lemma hex_value_zeros: "hex_value (replicate m CHR ''0'' @ h) = hex_value h"
proof -
  have z: "hexdigit_value CHR ''0'' = 0" by (simp add: hexdigit_value_def)
  have "foldl (\<lambda>a c. 16 * a + hexdigit_value c) 0 (replicate m CHR ''0'') = 0"
    by (induction m) (simp_all add: z)
  then show ?thesis by (simp add: hex_value_def)
qed

lemma hex_digits_bound: "k < 16 ^ length (hex_digits k)"
proof (induction k rule: hex_digits.induct)
  case (1 k)
  show ?case
  proof (cases "k < 16")
    case True
    then show ?thesis by (subst hex_digits.simps) simp
  next
    case False
    with "1.IH" have "k div 16 < 16 ^ length (hex_digits (k div 16))" by simp
    then have "k < 16 * 16 ^ length (hex_digits (k div 16))"
      by (simp add: div_less_iff_less_mult mult.commute)
    with False show ?thesis by (subst hex_digits.simps) simp
  qed
qed

lemma hex_digits_long: "16 ^ 7 \<le> k \<Longrightarrow> 7 < length (hex_digits k)"
proof (rule ccontr)
  assume k: "16 ^ 7 \<le> k" and "\<not> 7 < length (hex_digits k)"
  then have "length (hex_digits k) \<le> 7" by simp
  then have "(16::nat) ^ length (hex_digits k) \<le> 16 ^ 7"
    by (intro power_increasing) simp_all
  with hex_digits_bound [of k] k show False by simp
qed

text \<open>The value of a string of binary digits, position by position.\<close>

lemma bin_value_snoc: "bin_value (s @ [c]) = 2 * bin_value s + (if c = CHR ''1'' then 1 else 0)"
  by (simp add: bin_value_def)

lemma bin_value_sum:
  "bin_value s = (\<Sum>i<length s. if rev s ! i = CHR ''1'' then 2 ^ i else 0)"
proof (induction s rule: rev_induct)
  case Nil
  then show ?case by (simp add: bin_value_def)
next
  case (snoc c s)
  have "(\<Sum>i<length (s @ [c]). if rev (s @ [c]) ! i = CHR ''1'' then 2 ^ i else (0::nat))
        = (if c = CHR ''1'' then 1 else 0)
          + (\<Sum>i<length s. if rev s ! i = CHR ''1'' then 2 ^ Suc i else 0)"
  proof -
    have "(\<Sum>i<length (s @ [c]). if rev (s @ [c]) ! i = CHR ''1'' then 2 ^ i else (0::nat))
          = (\<Sum>i<Suc (length s). if (c # rev s) ! i = CHR ''1'' then 2 ^ i else 0)"
      by (simp del: sum.lessThan_Suc)
    also have "\<dots> = (if (c # rev s) ! 0 = CHR ''1'' then 2 ^ 0 else 0)
          + (\<Sum>i<length s. if (c # rev s) ! Suc i = CHR ''1'' then 2 ^ Suc i else 0)"
      by (rule sum.lessThan_Suc_shift)
    finally show ?thesis by simp
  qed
  also have "(\<Sum>i<length s. if rev s ! i = CHR ''1'' then 2 ^ Suc i else (0::nat))
             = 2 * (\<Sum>i<length s. if rev s ! i = CHR ''1'' then 2 ^ i else 0)"
    by (simp add: sum_distrib_left if_distrib cong: if_cong)
  finally show ?case using snoc.IH by (simp add: bin_value_snoc)
qed

text \<open>
  Claim C6. On a non-empty string of binary digits \<open>Bin2Hex\<close> returns 0x followed by at
  least 7 hexadecimal digits whose value is the unsigned value of the string, the last
  character being the lowest bit. A value of 16^7 or more is written with all its digits,
  more than 7 of them and none added; the value 0 is written 0000000 and the value 1
  is written 0000001.
\<close>

theorem Bin2Hex_pads_never_truncates:
  assumes "BitString s \<noteq> []" and "list_all is_bit (BitString s)"
  shows "\<exists>h. Bin2Hex s = Inr (''0x'' @ h) \<and> 7 \<le> length h
           \<and> hex_value h = (\<Sum>i<length (BitString s). if rev (BitString s) ! i = CHR ''1'' then 2 ^ i else 0)
           \<and> (16 ^ 7 \<le> hex_value h \<longrightarrow> h = hex_digits (hex_value h) \<and> 7 < length h)
           \<and> (hex_value h = 0 \<longrightarrow> h = ''0000000'')
           \<and> (hex_value h = 1 \<longrightarrow> h = ''0000001'')"
proof -
  define v where "v = bin_value (BitString s)"
  define h where "h = replicate (7 - length (hex_digits v)) CHR ''0'' @ hex_digits v"
  have b: "Bin2Hex s = Inr (''0x'' @ h)"
    using assms by (simp add: Bin2Hex_def int2_def format_0x_def h_def v_def)
  have l: "7 \<le> length h" by (simp add: h_def)
  have hv: "hex_value h = v"
    by (simp add: h_def hex_value_zeros hex_value_hex_digits)
  have sm: "v = (\<Sum>i<length (BitString s). if rev (BitString s) ! i = CHR ''1'' then 2 ^ i else 0)"
    unfolding v_def by (rule bin_value_sum)
  have big: "16 ^ 7 \<le> v \<longrightarrow> h = hex_digits v \<and> 7 < length h"
  proof
    assume "16 ^ 7 \<le> v"
    from hex_digits_long [OF this] show "h = hex_digits v \<and> 7 < length h"
      by (simp add: h_def)
  qed
  have z: "v = 0 \<longrightarrow> h = ''0000000''"
    by (simp add: h_def hex_digits.simps replicate_numeral)
  have o: "v = 1 \<longrightarrow> h = ''0000001''"
    by (simp add: h_def hex_digits.simps replicate_numeral)
  show ?thesis
  proof (intro exI [of _ h] conjI)
    show "Bin2Hex s = Inr (''0x'' @ h)" by (rule b)
    show "7 \<le> length h" by (rule l)
    show "hex_value h = (\<Sum>i<length (BitString s). if rev (BitString s) ! i = CHR ''1'' then 2 ^ i else 0)"
      using hv sm by simp
    show "16 ^ 7 \<le> hex_value h \<longrightarrow> h = hex_digits (hex_value h) \<and> 7 < length h"
      unfolding hv by (rule big)
    show "hex_value h = 0 \<longrightarrow> h = ''0000000''" using z by (simp add: hv)
    show "hex_value h = 1 \<longrightarrow> h = ''0000001''" using o by (simp add: hv)
  qed
qed

theorem Bin2Hex_pads_never_truncates_witness:
  "Bin2Hex (fresh\<lparr>BitString := replicate 32 CHR ''0''\<rparr>) = Inr ''0x0000000''
   \<and> Bin2Hex (fresh\<lparr>BitString := replicate 31 CHR ''0'' @ ''1''\<rparr>) = Inr ''0x0000001''
   \<and> Bin2Hex (fresh\<lparr>BitString := replicate 32 CHR ''1''\<rparr>) = Inr ''0xFFFFFFFF''"
proof -
  have v0: "bin_value (replicate 32 CHR ''0'') = 0"
    and v1: "bin_value (replicate 31 CHR ''0'' @ ''1'') = 1"
    and v2: "bin_value (replicate 32 CHR ''1'') = 4294967295"
    by (simp_all add: bin_value_def replicate_numeral)
  from Bin2Hex_pads_never_truncates [of "fresh\<lparr>BitString := replicate 32 CHR ''0''\<rparr>"]
  have a: "Bin2Hex (fresh\<lparr>BitString := replicate 32 CHR ''0''\<rparr>) = Inr ''0x0000000''"
    by (auto simp: bin_value_sum [symmetric] v0 is_bit_def replicate_numeral)
  from Bin2Hex_pads_never_truncates [of "fresh\<lparr>BitString := replicate 31 CHR ''0'' @ ''1''\<rparr>"]
  have b: "Bin2Hex (fresh\<lparr>BitString := replicate 31 CHR ''0'' @ ''1''\<rparr>) = Inr ''0x0000001''"
    by (auto simp: bin_value_sum [symmetric] v1 is_bit_def replicate_numeral)
  from Bin2Hex_pads_never_truncates [of "fresh\<lparr>BitString := replicate 32 CHR ''1''\<rparr>"]
  have c: "Bin2Hex (fresh\<lparr>BitString := replicate 32 CHR ''1''\<rparr>) = Inr ''0xFFFFFFFF''"
    by (auto simp: bin_value_sum [symmetric] v2 is_bit_def replicate_numeral hex_digits.simps)
  from a b c show ?thesis by simp
qed

subsection \<open>Exceptions\<close>

lemma Decode_LogicalBit_safe:
  assumes "Decode_LogicalBit t s = Return b s1"
  shows "b \<noteq> [] \<and> list_all is_bit b \<and> samplerate s1 = samplerate s
         \<and> (BitString s1 = BitString s \<or> BitString s1 = '''')"
  using assms
  by (auto simp: Decode_LogicalBit_def Let_def wait_def is_bit_def
      split: if_splits option.splits cond.splits list.splits)

lemma Decode_LogicalBit_no_raise: "Decode_LogicalBit t s \<noteq> Raised e s'"
  by (auto simp: Decode_LogicalBit_def Let_def split: if_splits option.splits)

lemma close_field_safe:
  assumes "BitString s \<noteq> []" and "list_all is_bit (BitString s)"
  shows "\<exists>s'. close_field l k c s = Return () s' \<and> samplerate s' = samplerate s
           \<and> BitString s' = ''''"
  using assms by (simp add: close_field_ok)

lemma Decode_DataPortion_safe:
  assumes ok: "list_all is_bit (BitString s)"
  shows "(\<forall>e s'. Decode_DataPortion t s \<noteq> Raised e s')
         \<and> (\<forall>u s'. Decode_DataPortion t s = Return u s' \<longrightarrow>
               samplerate s' = samplerate s \<and> list_all is_bit (BitString s'))"
proof (cases "Decode_LogicalBit t s")
  case (Return b s1)
  from Decode_LogicalBit_safe [OF Return] ok
  have b: "b \<noteq> []" "list_all is_bit b" and s1: "samplerate s1 = samplerate s"
    "list_all is_bit (BitString s1)"
    by auto
  let ?s2 = "s1\<lparr>BitString := b @ BitString s1\<rparr>"
  have s2: "BitString ?s2 \<noteq> []" "list_all is_bit (BitString ?s2)"
    using b s1 by simp_all
  from close_field_safe [OF s2] s1
  have cf: "\<exists>s'. close_field l k c ?s2 = Return () s' \<and> samplerate s' = samplerate s
              \<and> BitString s' = ''''" for l k c
    by simp
  consider "Bitcnt s \<le> 31" | "32 \<le> Bitcnt s" "Bitcnt s \<le> 59" | "60 \<le> Bitcnt s" "Bitcnt s \<le> 63"
    | "Bitcnt s = 64" | "Bitcnt s = 65" | "66 \<le> Bitcnt s"
    by linarith
  then show ?thesis
  proof cases
    case 1
    from cf [of "''Encrypted Portion''" "''Encrypted''" Ann_ENCRYP_DATA]
    obtain s3 where "close_field ''Encrypted Portion'' ''Encrypted'' Ann_ENCRYP_DATA ?s2 = Return () s3"
      "samplerate s3 = samplerate s" "BitString s3 = ''''"
      by blast
    with 1 Return s1 s2 show ?thesis
      by (auto simp: Decode_DataPortion_def Let_def)
  next
    case 2
    from cf [of "''Serial Number''" "''Serial-Number''" Ann_FIXED_DATA]
    obtain s3 where "close_field ''Serial Number'' ''Serial-Number'' Ann_FIXED_DATA ?s2 = Return () s3"
      "samplerate s3 = samplerate s" "BitString s3 = ''''"
      by blast
    with 2 Return s1 s2 show ?thesis
      by (auto simp: Decode_DataPortion_def Let_def)
  next
    case 3
    with Return s1 show ?thesis
      by (auto simp: Decode_DataPortion_def Let_def)
  next
    case 4
    with Return s1 show ?thesis
      by (auto simp: Decode_DataPortion_def Let_def)
  next
    case 5
    with Return s1 show ?thesis
      by (auto simp: Decode_DataPortion_def Let_def)
  next
    case 6
    with ok show ?thesis
      by (auto simp: Decode_DataPortion_def Let_def)
  qed
next
  case (Ended s1)
  with ok show ?thesis
    by (auto simp: Decode_DataPortion_def Let_def)
next
  case (Raised e s1)
  with Decode_LogicalBit_no_raise show ?thesis by blast
qed

lemma loop_body_safe:
  assumes "samplerate s = Some r" and "r \<noteq> 0" and "list_all is_bit (BitString s)"
  shows "(\<forall>e s'. loop_body s \<noteq> Raised e s')
         \<and> (\<forall>u s'. loop_body s = Return u s' \<longrightarrow>
               samplerate s' = Some r \<and> list_all is_bit (BitString s'))"
proof (cases "wait s")
  case None
  then show ?thesis by (simp add: loop_body_def)
next
  case (Some s1)
  then have f: "samplerate s1 = Some r" "list_all is_bit (BitString s1)"
    using assms by (auto simp: wait_def split: cond.splits list.splits)
  let ?s1 = "s1\<lparr>n := samplenum s1\<rparr>"
  let ?t = "real_of_int (n ?s1 - prevN ?s1) / r"
  have pre: "samplerate (Decode_Preable t a) = samplerate a"
    "BitString (Decode_Preable t a) = BitString a" for t a
    by (simp_all add: Decode_Preable_def Let_def)
  from f have "list_all is_bit (BitString ?s1)" by simp
  from Decode_DataPortion_safe [OF this, of ?t] f
  have d: "\<And>e s'. Decode_DataPortion ?t ?s1 \<noteq> Raised e s'"
    "\<And>u s'. Decode_DataPortion ?t ?s1 = Return u s' \<Longrightarrow>
        samplerate s' = Some r \<and> list_all is_bit (BitString s')"
    by auto
  show ?thesis
  proof (cases "Header_Completed s1 = 0")
    case True
    with Some f assms(2) show ?thesis
      by (simp add: loop_body_def Let_def pre)
  next
    case False
    with Some f assms(2) d show ?thesis
      by (cases "Decode_DataPortion ?t ?s1") (simp_all add: loop_body_def Let_def)
  qed
qed

lemma decode_loop_safe:
  "samplerate s = Some r \<Longrightarrow> r \<noteq> 0 \<Longrightarrow> list_all is_bit (BitString s) \<Longrightarrow>
     \<exists>s'. decode_loop s = Ended s'"
proof (induction s rule: decode_loop.induct)
  case (1 s)
  from loop_body_safe [OF "1.prems"]
  have nr: "\<And>e s'. loop_body s \<noteq> Raised e s'"
    and inv: "\<And>u s'. loop_body s = Return u s' \<Longrightarrow>
        samplerate s' = Some r \<and> list_all is_bit (BitString s')"
    by auto
  show ?case
  proof (cases "loop_body s")
    case (Return u s1)
    from inv [OF Return] have "samplerate s1 = Some r" "list_all is_bit (BitString s1)"
      by simp_all
    from "1.IH" [OF Return this(1) "1.prems"(2) this(2)] Return show ?thesis
      by (subst decode_loop.simps) simp
  next
    case (Ended s1)
    then show ?thesis by (subst decode_loop.simps) simp
  next
    case (Raised e s1)
    with nr show ?thesis by blast
  qed
qed

text \<open>
  Claim C9, as amended. Without a sample rate \<open>decode\<close> raises at once, in the state it
  was called in: no edge has been taken and nothing has been put. With a sample rate
  other than 0, and \<open>BitString\<close> holding binary digits only as it does after \<open>reset\<close>,
  \<open>decode\<close> raises nothing on any recording: it runs until the host has no edge left.
\<close>

theorem decode_exceptions:
  "(samplerate s = None \<longrightarrow>
      decode s = Raised (Exception ''Cannot decode without samplerate.'') s)
   \<and> (\<forall>r. samplerate s = Some r \<and> r \<noteq> 0 \<and> list_all is_bit (BitString s) \<longrightarrow>
         (\<exists>s'. decode s = Ended s'))"
proof (intro conjI impI allI)
  assume "samplerate s = None"
  then show "decode s = Raised (Exception ''Cannot decode without samplerate.'') s"
    by (simp add: decode_def decode_begin_def)
next
  fix r
  assume a: "samplerate s = Some r \<and> r \<noteq> 0 \<and> list_all is_bit (BitString s)"
  show "\<exists>s'. decode s = Ended s'"
  proof (cases "wait (s\<lparr>trig_cond := Cond_Rising\<rparr>)")
    case None
    with a show ?thesis by (simp add: decode_def decode_begin_def)
  next
    case (Some s2)
    then have f: "samplerate s2 = Some r" "list_all is_bit (BitString s2)"
      using a by (auto simp: wait_def split: list.splits)
    let ?s3 = "s2\<lparr>prevN := samplenum s2, trig_cond := Cond_Edge\<rparr>"
    from a f have "\<exists>s'. decode_loop ?s3 = Ended s'"
      by (intro decode_loop_safe [where r = r]) simp_all
    with Some a show ?thesis by (simp add: decode_def decode_begin_def)
  qed
qed

theorem decode_exceptions_witness:
  "decode (fresh\<lparr>pending := scenario_stream\<rparr>)
     = Raised (Exception ''Cannot decode without samplerate.'') (fresh\<lparr>pending := scenario_stream\<rparr>)
   \<and> decode (metadata 1000000 (reset (fresh\<lparr>pending := scenario_stream\<rparr>)))
     = Ended (state_of (decode (metadata 1000000 (reset (fresh\<lparr>pending := scenario_stream\<rparr>)))))
   \<and> decode (metadata (- 1000000) (reset (fresh\<lparr>pending := scenario_stream\<rparr>)))
     = Ended (state_of (decode (metadata (- 1000000) (reset (fresh\<lparr>pending := scenario_stream\<rparr>)))))"
proof -
  from decode_exceptions [of "fresh\<lparr>pending := scenario_stream\<rparr>"]
  have a: "decode (fresh\<lparr>pending := scenario_stream\<rparr>)
     = Raised (Exception ''Cannot decode without samplerate.'') (fresh\<lparr>pending := scenario_stream\<rparr>)"
    by (simp add: fresh_def reset_def)
  from decode_exceptions [of "metadata 1000000 (reset (fresh\<lparr>pending := scenario_stream\<rparr>))"]
  obtain s' where b: "decode (metadata 1000000 (reset (fresh\<lparr>pending := scenario_stream\<rparr>))) = Ended s'"
    by auto
  from decode_exceptions [of "metadata (- 1000000) (reset (fresh\<lparr>pending := scenario_stream\<rparr>))"]
  obtain s'' where c: "decode (metadata (- 1000000) (reset (fresh\<lparr>pending := scenario_stream\<rparr>))) = Ended s''"
    by auto
  from a b c show ?thesis by simp
qed

text \<open>
  A sample rate of 0 is a sample rate supplied, and with it \<open>decode\<close> raises
  \<open>ZeroDivisionError\<close> at the first duration: here after a rising edge at sample 0 and
  an edge at sample 400, which the loop has taken from the host when it raises.
\<close>

theorem decode_exceptions_counterexample:
  "decode (metadata 0 (reset (fresh\<lparr>pending := [(0, True), (400, False)]\<rparr>)))
     = Raised ZeroDivisionError
         ((metadata 0 (reset fresh))\<lparr>trig_cond := Cond_Edge, samplenum := 400, n := 400\<rparr>)"
  by (subst decode_def, simp add: decode_begin_def wait_def Let_def, subst decode_loop.simps)
    (simp add: loop_body_def wait_def Let_def metadata_def reset_def fresh_def)

end
